theory Spec2Isabelle
  imports Complex_Main "HOL-Library.Log_Nat"
begin

section \<open>Numbers and the parts of three.js the game uses\<close>

text \<open>
  The game computes with JavaScript numbers.  They are modelled as exact reals: every
  statement below is about the arithmetic the source writes down, without the rounding
  of IEEE doubles.  The score is a counter that starts at 0 and only ever
  grows by one, so it is a natural number.

  One rounding is part of the model.  three.js keeps the vertices of a geometry in a
  \<^verbatim>\<open>Float32Array\<close>, and \<^verbatim>\<open>computeBoundingBox\<close> reads them back from there, so the corners
  of a geometry's bounding box are single-precision numbers.  \<open>fround\<close> rounds a real to
  the nearest such number, ties to the even significand (\<^verbatim>\<open>Math.fround\<close>): the numbers
  on its grid are the multiples of 2 to the power -149 with at most 24 significant
  bits.  It does not model the overflow to infinity, which needs a magnitude of 2 to
  the power 128.
\<close>

definition roundTiesToEven :: "real \<Rightarrow> int" where
  "roundTiesToEven y =
     (let f = \<lfloor>y\<rfloor>
      in if y - of_int f < 1/2 then f
         else if y - of_int f > 1/2 then f + 1
         else if even f then f else f + 1)"

definition fround :: "real \<Rightarrow> real" where
  "fround x =
     (let n = \<lfloor>\<bar>x\<bar> * 2 ^ 149\<rfloor>;
          q = 2 ^ nat (bitlen n - 24)
      in of_int (roundTiesToEven (x * 2 ^ 149 / q)) * q / 2 ^ 149)"

record vec3 =
  vx :: real
  vy :: real
  vz :: real

definition vec :: "real \<Rightarrow> real \<Rightarrow> real \<Rightarrow> vec3" where
  "vec a b c = \<lparr>vx = a, vy = b, vz = c\<rparr>"

text \<open>\<^verbatim>\<open>THREE.Box3\<close>: an axis-aligned box given by its two extreme corners.\<close>

record box3 =
  bmin :: vec3
  bmax :: vec3

text \<open>
  \<^verbatim>\<open>THREE.Matrix4\<close>, restricted to what an unscaled object directly under the scene
  has: three rows of a rotation and a translation (the fourth row is 0 0 0 1).
\<close>

record matrix4 =
  row1 :: vec3
  row2 :: vec3
  row3 :: vec3
  translation :: vec3

definition identity :: matrix4 where
  "identity = \<lparr>row1 = vec 1 0 0, row2 = vec 0 1 0, row3 = vec 0 0 1, translation = vec 0 0 0\<rparr>"

text \<open>
  \<^verbatim>\<open>Matrix4.compose(position, quaternion, scale)\<close> for scale 1 and the quaternion of an
  Euler rotation in three.js's default order XYZ (the entries of
  \<^verbatim>\<open>makeRotationFromEuler\<close>).
\<close>

definition compose :: "vec3 \<Rightarrow> vec3 \<Rightarrow> matrix4" where
  "compose p r =
     (let a = cos (vx r); b = sin (vx r);
          c = cos (vy r); d = sin (vy r);
          e = cos (vz r); f = sin (vz r)
      in \<lparr>row1 = vec (c * e) (- (c * f)) d,
          row2 = vec (a * f + b * e * d) (a * e - b * f * d) (- (b * c)),
          row3 = vec (b * f - a * e * d) (b * e + a * f * d) (a * c),
          translation = p\<rparr>)"

definition dot :: "vec3 \<Rightarrow> vec3 \<Rightarrow> real" where
  "dot u w = vx u * vx w + vy u * vy w + vz u * vz w"

text \<open>\<^verbatim>\<open>Vector3.applyMatrix4\<close> for an affine matrix.\<close>

definition applyMatrix4_vec :: "vec3 \<Rightarrow> matrix4 \<Rightarrow> vec3" where
  "applyMatrix4_vec p m =
     vec (dot (row1 m) p + vx (translation m))
         (dot (row2 m) p + vy (translation m))
         (dot (row3 m) p + vz (translation m))"

text \<open>\<^verbatim>\<open>Box3.expandByPoint\<close>: componentwise minimum and maximum.\<close>

definition expandByPoint :: "box3 \<Rightarrow> vec3 \<Rightarrow> box3" where
  "expandByPoint b p =
     \<lparr>bmin = vec (min (vx (bmin b)) (vx p)) (min (vy (bmin b)) (vy p)) (min (vz (bmin b)) (vz p)),
      bmax = vec (max (vx (bmax b)) (vx p)) (max (vy (bmax b)) (vy p)) (max (vz (bmax b)) (vz p))\<rparr>"

definition isEmpty :: "box3 \<Rightarrow> bool" where
  "isEmpty b \<longleftrightarrow>
     vx (bmax b) < vx (bmin b) \<or> vy (bmax b) < vy (bmin b) \<or> vz (bmax b) < vz (bmin b)"

text \<open>
  \<^verbatim>\<open>Box3.applyMatrix4\<close>: an empty box is returned as it is; otherwise the eight corners
  are transformed and the box is set from these points.  three.js starts the expansion
  from the empty box with infinite corners; starting from the first transformed corner
  gives the same box.
\<close>

definition corners :: "box3 \<Rightarrow> vec3 list" where
  "corners b =
     [vec (vx (bmin b)) (vy (bmin b)) (vz (bmin b)),
      vec (vx (bmin b)) (vy (bmin b)) (vz (bmax b)),
      vec (vx (bmin b)) (vy (bmax b)) (vz (bmin b)),
      vec (vx (bmin b)) (vy (bmax b)) (vz (bmax b)),
      vec (vx (bmax b)) (vy (bmin b)) (vz (bmin b)),
      vec (vx (bmax b)) (vy (bmin b)) (vz (bmax b)),
      vec (vx (bmax b)) (vy (bmax b)) (vz (bmin b)),
      vec (vx (bmax b)) (vy (bmax b)) (vz (bmax b))]"

fun setFromPoints :: "vec3 list \<Rightarrow> box3" where
  "setFromPoints [] = \<lparr>bmin = vec 0 0 0, bmax = vec 0 0 0\<rparr>"
| "setFromPoints (p # ps) = foldl expandByPoint \<lparr>bmin = p, bmax = p\<rparr> ps"

definition applyMatrix4 :: "box3 \<Rightarrow> matrix4 \<Rightarrow> box3" where
  "applyMatrix4 b m =
     (if isEmpty b then b
      else setFromPoints (map (\<lambda>p. applyMatrix4_vec p m) (corners b)))"


definition intersectsBox :: "box3 \<Rightarrow> box3 \<Rightarrow> bool" where
  "intersectsBox this box \<longleftrightarrow>
     vx (bmax box) \<ge> vx (bmin this) \<and> vx (bmin box) \<le> vx (bmax this) \<and>
     vy (bmax box) \<ge> vy (bmin this) \<and> vy (bmin box) \<le> vy (bmax this) \<and>
     vz (bmax box) \<ge> vz (bmin this) \<and> vz (bmin box) \<le> vz (bmax this)"

text \<open>
  The two geometries of the game with their parameters (three.js keeps them in
  \<^verbatim>\<open>geometry.parameters\<close>): \<^verbatim>\<open>BoxGeometry(width, height, depth)\<close> and
  \<^verbatim>\<open>SphereGeometry(radius, 32, 16)\<close>.  A box has its vertices at plus and minus half of
  each parameter; the vertices of the sphere reach plus and minus the radius on every
  axis.  \<^verbatim>\<open>computeBoundingBox\<close> takes minimum and maximum of the stored, single-precision
  vertex coordinates.
\<close>

datatype geometry = BoxGeometry real real real | SphereGeometry real

fun computeBoundingBox :: "geometry \<Rightarrow> box3" where
  "computeBoundingBox (BoxGeometry width height depth) =
     \<lparr>bmin = vec (- fround (width / 2)) (- fround (height / 2)) (- fround (depth / 2)),
      bmax = vec (fround (width / 2)) (fround (height / 2)) (fround (depth / 2))\<rparr>"
| "computeBoundingBox (SphereGeometry radius) =
     \<lparr>bmin = vec (- fround radius) (- fround radius) (- fround radius),
      bmax = vec (fround radius) (fround radius) (fround radius)\<rparr>"

text \<open>
  A \<^verbatim>\<open>THREE.Mesh\<close>: its identity (the scene holds objects by reference, so removal is
  by identity), position, Euler rotation, its geometry with the bounding box computed
  for it (\<^verbatim>\<open>geometry.boundingBox\<close>, in local coordinates), and the world matrix as last
  computed by \<^verbatim>\<open>updateMatrixWorld\<close>.
\<close>

record mesh =
  meshId :: nat
  position :: vec3
  rotation :: vec3
  geometry :: geometry
  boundingBox :: box3
  matrixWorld :: matrix4

definition newMesh :: "nat \<Rightarrow> geometry \<Rightarrow> mesh" where
  "newMesh i g =
     \<lparr>meshId = i, position = vec 0 0 0, rotation = vec 0 0 0,
      geometry = g, boundingBox = computeBoundingBox g, matrixWorld = identity\<rparr>"

definition updateMatrixWorld :: "mesh \<Rightarrow> mesh" where
  "updateMatrixWorld m = m\<lparr>matrixWorld := compose (position m) (rotation m)\<rparr>"

text \<open>\<^verbatim>\<open>THREE.MathUtils.randFloat(low, high)\<close>, with \<open>u\<close> the value \<^verbatim>\<open>Math.random()\<close> returned.\<close>

definition randFloat :: "real \<Rightarrow> real \<Rightarrow> real \<Rightarrow> real" where
  "randFloat low high u = low + u * (high - low)"


section \<open>The game state of \<^verbatim>\<open>game.js\<close>\<close>

definition aspectRatio :: real where "aspectRatio = 9 / 16"
definition viewHeight :: real where "viewHeight = 16"
definition viewWidth :: real where "viewWidth = viewHeight * aspectRatio"

definition seedRadius :: real where "seedRadius = 0.5"
definition gravity :: real where "gravity = 0.015"
definition surgeStrength :: real where "surgeStrength = 0.45"
definition seedMinY :: real where "seedMinY = viewHeight / - 2 + seedRadius"
definition seedMaxY :: real where "seedMaxY = viewHeight / 2 - seedRadius"

definition obstacleWidth :: real where "obstacleWidth = 1.5"
definition obstacleMinGap :: real where "obstacleMinGap = 4.0"
definition obstacleMaxGap :: real where "obstacleMaxGap = 5.5"
definition obstacleSpawnX :: real where "obstacleSpawnX = viewWidth / 2 + obstacleWidth"
definition obstacleDespawnX :: real where "obstacleDespawnX = viewWidth / - 2 - obstacleWidth"
definition obstacleSpeed :: real where "obstacleSpeed = 3.0"
definition spawnInterval :: real where "spawnInterval = 2.0"

text \<open>An entry of the \<^verbatim>\<open>obstacles\<close> array: \<^verbatim>\<open>{top, bottom, passed}\<close>.\<close>

record obstacle =
  topObstacle :: mesh
  bottomObstacle :: mesh
  passed :: bool

datatype display = DisplayNone | DisplayBlock

text \<open>
  The mutable top-level variables of the module, the objects they refer to, and the
  DOM properties the code writes.  \<open>scene\<close> is the list of the identities of the
  scene's children; \<open>nextId\<close> is the next unused identity.
\<close>

record game =
  seed :: mesh
  seedVisible :: bool
  seedVelocityY :: real
  gameStarted :: bool
  gameOver :: bool
  score :: nat
  obstacles :: "obstacle list"
  timeSinceLastSpawn :: real
  scene :: "nat list"
  nextId :: nat
  scoreText :: nat
  startMessageDisplay :: display
  gameOverMessageDisplay :: display

definition seedY :: "game \<Rightarrow> real" where
  "seedY s = vy (position (seed s))"

definition seedX :: "game \<Rightarrow> real" where
  "seedX s = vx (position (seed s))"

definition setY :: "real \<Rightarrow> mesh \<Rightarrow> mesh" where
  "setY y m = m\<lparr>position := (position m)\<lparr>vy := y\<rparr>\<rparr>"

definition setX :: "real \<Rightarrow> mesh \<Rightarrow> mesh" where
  "setX x m = m\<lparr>position := (position m)\<lparr>vx := x\<rparr>\<rparr>"

definition meshX :: "mesh \<Rightarrow> real" where
  "meshX m = vx (position m)"

subsection \<open>\<^verbatim>\<open>createObstacle\<close>\<close>

text \<open>
  \<open>u1\<close> and \<open>u2\<close> are the two values \<^verbatim>\<open>Math.random()\<close> returns inside the two calls of
  \<^verbatim>\<open>randFloat\<close>.  The early return of the height guard leaves the state unchanged.
\<close>

definition createObstacle :: "real \<Rightarrow> real \<Rightarrow> game \<Rightarrow> game" where
  "createObstacle u1 u2 s =
     (let gapHeight = randFloat obstacleMinGap obstacleMaxGap u1;
          gapCenterY = randFloat (viewHeight / - 2 + gapHeight / 2 + 1.0)
                                 (viewHeight / 2 - gapHeight / 2 - 1.0) u2;
          topHeight = viewHeight / 2 - (gapCenterY + gapHeight / 2);
          bottomHeight = viewHeight / 2 + (gapCenterY - gapHeight / 2)
      in if topHeight \<le> 0 \<or> bottomHeight \<le> 0 then s
         else
           let top = (newMesh (nextId s) (BoxGeometry obstacleWidth topHeight obstacleWidth))
                       \<lparr>position := vec obstacleSpawnX (gapCenterY + gapHeight / 2 + topHeight / 2) 0\<rparr>;
               bottom = (newMesh (nextId s + 1) (BoxGeometry obstacleWidth bottomHeight obstacleWidth))
                       \<lparr>position := vec obstacleSpawnX (gapCenterY - gapHeight / 2 - bottomHeight / 2) 0\<rparr>
           in s\<lparr>scene := scene s @ [meshId top, meshId bottom],
                obstacles := obstacles s @ [\<lparr>topObstacle = top, bottomObstacle = bottom, passed = False\<rparr>],
                nextId := nextId s + 2\<rparr>)"












subsection \<open>\<^verbatim>\<open>resetGame\<close> and \<^verbatim>\<open>handleInput\<close>\<close>

fun removeAll_scene :: "obstacle list \<Rightarrow> nat list \<Rightarrow> nat list" where
  "removeAll_scene [] sc = sc"
| "removeAll_scene (ob # obs) sc =
     removeAll_scene obs (remove1 (meshId (bottomObstacle ob)) (remove1 (meshId (topObstacle ob)) sc))"

definition resetGame :: "game \<Rightarrow> game" where
  "resetGame s =
     s\<lparr>seed := setY 0 (seed s),
       seedVelocityY := 0,
       seedVisible := True,
       score := 0,
       scoreText := 0,
       gameOver := False,
       gameStarted := False,
       timeSinceLastSpawn := spawnInterval,
       scene := removeAll_scene (obstacles s) (scene s),
       obstacles := [],
       gameOverMessageDisplay := DisplayNone,
       startMessageDisplay := DisplayBlock\<rparr>"

definition handleInput :: "game \<Rightarrow> game" where
  "handleInput s =
     (if gameOver s then resetGame s
      else
        (if \<not> gameStarted s then s\<lparr>gameStarted := True, startMessageDisplay := DisplayNone\<rparr>
         else s)\<lparr>seedVelocityY := surgeStrength\<rparr>)"

subsection \<open>\<^verbatim>\<open>checkCollisions\<close>\<close>

definition worldBox :: "mesh \<Rightarrow> box3" where
  "worldBox m = applyMatrix4 (boundingBox m) (matrixWorld m)"

text \<open>The \<^verbatim>\<open>for ... of\<close> loop with its two early returns.\<close>

fun collisionScan :: "box3 \<Rightarrow> obstacle list \<Rightarrow> bool" where
  "collisionScan seedBox [] = False"
| "collisionScan seedBox (ob # obs) =
     (if intersectsBox seedBox (worldBox (topObstacle ob)) then True
      else if intersectsBox seedBox (worldBox (bottomObstacle ob)) then True
      else collisionScan seedBox obs)"

definition checkCollisions :: "game \<Rightarrow> bool" where
  "checkCollisions s = collisionScan (worldBox (seed s)) (obstacles s)"

subsection \<open>\<^verbatim>\<open>animate\<close>, one phase of the frame at a time\<close>

text \<open>Seed physics: \<^verbatim>\<open>seedVelocityY -= gravity; seed.position.y += seedVelocityY\<close>.\<close>

definition seedPhysics :: "game \<Rightarrow> game" where
  "seedPhysics s =
     (let v = seedVelocityY s - gravity
      in s\<lparr>seedVelocityY := v, seed := setY (seedY s + v) (seed s)\<rparr>)"

definition updateSeedMatrix :: "game \<Rightarrow> game" where
  "updateSeedMatrix s = s\<lparr>seed := updateMatrixWorld (seed s)\<rparr>"

definition boundaryChecks :: "game \<Rightarrow> game" where
  "boundaryChecks s =
     (if seedY s < seedMinY
      then s\<lparr>seed := setY seedMinY (seed s), seedVelocityY := 0, gameOver := True\<rparr>
      else if seedY s > seedMaxY
      then s\<lparr>seed := setY seedMaxY (seed s), seedVelocityY := 0, gameOver := True\<rparr>
      else s)"

definition obstacleSpawning :: "real \<Rightarrow> real \<Rightarrow> real \<Rightarrow> game \<Rightarrow> game" where
  "obstacleSpawning deltaTime u1 u2 s =
     (let s1 = s\<lparr>timeSinceLastSpawn := timeSinceLastSpawn s + deltaTime\<rparr>
      in if timeSinceLastSpawn s1 \<ge> spawnInterval
         then (createObstacle u1 u2 s1)\<lparr>timeSinceLastSpawn := 0\<rparr>
         else s1)"

text \<open>
  The body of the backwards loop at index \<open>i\<close>: move both solids, update their world
  matrices, score, and clean up.  An index outside the array reads \<^verbatim>\<open>undefined\<close>, and
  the source then splices at that index, which changes nothing.  (Every entry of the
  array is built by \<^verbatim>\<open>createObstacle\<close> with both meshes, so the record type has no
  entry without \<^verbatim>\<open>top\<close> or \<^verbatim>\<open>bottom\<close>.)
\<close>

definition moveObstacle :: "real \<Rightarrow> obstacle \<Rightarrow> obstacle" where
  "moveObstacle moveAmount ob =
     ob\<lparr>topObstacle := updateMatrixWorld (setX (meshX (topObstacle ob) - moveAmount) (topObstacle ob)),
        bottomObstacle := updateMatrixWorld (setX (meshX (bottomObstacle ob) - moveAmount) (bottomObstacle ob))\<rparr>"

definition obstacleStep :: "real \<Rightarrow> nat \<Rightarrow> game \<Rightarrow> game" where
  "obstacleStep deltaTime i s =
     (if i \<ge> length (obstacles s) then s
      else
        let moveAmount = obstacleSpeed * deltaTime;
            moved = moveObstacle moveAmount (obstacles s ! i);
            scored = (\<not> passed moved \<and> seedX s > meshX (topObstacle moved));
            ob = (if scored then moved\<lparr>passed := True\<rparr> else moved);
            s1 = (if scored
                  then s\<lparr>obstacles := (obstacles s)[i := ob], score := score s + 1,
                         scoreText := score s + 1\<rparr>
                  else s\<lparr>obstacles := (obstacles s)[i := ob]\<rparr>)
        in if meshX (topObstacle ob) < obstacleDespawnX
           then s1\<lparr>scene := remove1 (meshId (bottomObstacle ob))
                               (remove1 (meshId (topObstacle ob)) (scene s1)),
                   obstacles := take i (obstacles s1) @ drop (Suc i) (obstacles s1)\<rparr>
           else s1)"

text \<open>\<^verbatim>\<open>for (let i = obstacles.length - 1; i >= 0; i--)\<close>: \<open>obstacleLoop dt n\<close> runs the
  body at the indices \<open>n - 1\<close> down to \<open>0\<close>.\<close>

fun obstacleLoop :: "real \<Rightarrow> nat \<Rightarrow> game \<Rightarrow> game" where
  "obstacleLoop deltaTime 0 s = s"
| "obstacleLoop deltaTime (Suc i) s = obstacleLoop deltaTime i (obstacleStep deltaTime i s)"

definition obstaclePhase :: "real \<Rightarrow> game \<Rightarrow> game" where
  "obstaclePhase deltaTime s = obstacleLoop deltaTime (length (obstacles s)) s"

definition collisionCheck :: "game \<Rightarrow> game" where
  "collisionCheck s = (if \<not> gameOver s \<and> checkCollisions s then s\<lparr>gameOver := True\<rparr> else s)"

definition handleGameOverState :: "game \<Rightarrow> game" where
  "handleGameOverState s =
     (if gameOver s then s\<lparr>gameOverMessageDisplay := DisplayBlock, seedVisible := False\<rparr> else s)"

definition seedRotation :: "real \<Rightarrow> game \<Rightarrow> game" where
  "seedRotation deltaTime s =
     (if seedVisible s
      then s\<lparr>seed := (seed s)\<lparr>rotation :=
               vec (vx (rotation (seed s)) + 0.3 * deltaTime)
                   (vy (rotation (seed s)) + 0.5 * deltaTime)
                   (vz (rotation (seed s)))\<rparr>\<rparr>
      else s)"

text \<open>Everything of a running frame that follows the seed physics.\<close>

definition afterPhysics :: "real \<Rightarrow> real \<Rightarrow> real \<Rightarrow> game \<Rightarrow> game" where
  "afterPhysics deltaTime u1 u2 s =
     seedRotation deltaTime
       (handleGameOverState
         (collisionCheck
           (obstaclePhase deltaTime
             (obstacleSpawning deltaTime u1 u2
               (boundaryChecks (updateSeedMatrix s))))))"

text \<open>
  \<^verbatim>\<open>renderer.render(scene, camera)\<close> recomputes the world matrix of every object in
  the scene; nothing else of the rendering is state of the game.
\<close>

definition renderMesh :: "nat list \<Rightarrow> mesh \<Rightarrow> mesh" where
  "renderMesh sc m = (if meshId m \<in> set sc then updateMatrixWorld m else m)"

definition renderPair :: "nat list \<Rightarrow> obstacle \<Rightarrow> obstacle" where
  "renderPair sc ob =
     ob\<lparr>topObstacle := renderMesh sc (topObstacle ob),
        bottomObstacle := renderMesh sc (bottomObstacle ob)\<rparr>"

definition render :: "game \<Rightarrow> game" where
  "render s =
     s\<lparr>seed := renderMesh (scene s) (seed s),
       obstacles := map (renderPair (scene s)) (obstacles s)\<rparr>"

text \<open>
  One call of \<^verbatim>\<open>animate\<close>: \<open>deltaTime\<close> is what \<^verbatim>\<open>clock.getDelta()\<close> returned, \<open>u1\<close> and
  \<open>u2\<close> are the random numbers \<^verbatim>\<open>createObstacle\<close> would draw in this frame.
\<close>

definition gameLogic :: "real \<Rightarrow> real \<Rightarrow> real \<Rightarrow> game \<Rightarrow> game" where
  "gameLogic deltaTime u1 u2 s =
     (if gameStarted s \<and> \<not> gameOver s then afterPhysics deltaTime u1 u2 (seedPhysics s)
      else if gameOver s
      then (let s1 = (if gameOverMessageDisplay s \<noteq> DisplayBlock
                      then s\<lparr>gameOverMessageDisplay := DisplayBlock\<rparr> else s)
            in if seedVisible s1 then s1\<lparr>seedVisible := False\<rparr> else s1)
      else (if startMessageDisplay s \<noteq> DisplayBlock
            then s\<lparr>startMessageDisplay := DisplayBlock\<rparr> else s))"

definition animate :: "real \<Rightarrow> real \<Rightarrow> real \<Rightarrow> game \<Rightarrow> game" where
  "animate deltaTime u1 u2 s = render (gameLogic deltaTime u1 u2 s)"

subsection \<open>Runs of the game\<close>

text \<open>
  The state the top-level code builds before it calls \<^verbatim>\<open>resetGame()\<close>: the two lights and
  the seed are in the scene.  The three DOM properties are whatever the page says;
  \<^verbatim>\<open>resetGame\<close> overwrites them.
\<close>

definition loadedGame :: game where
  "loadedGame =
     \<lparr>seed = (newMesh 2 (SphereGeometry seedRadius))\<lparr>position := vec (- viewWidth / 3) 0 0\<rparr>,
      seedVisible = True,
      seedVelocityY = 0,
      gameStarted = False,
      gameOver = False,
      score = 0,
      obstacles = [],
      timeSinceLastSpawn = 0,
      scene = [0, 1, 2],
      nextId = 3,
      scoreText = 0,
      startMessageDisplay = DisplayBlock,
      gameOverMessageDisplay = DisplayNone\<rparr>"

definition initialGame :: game where
  "initialGame = resetGame loadedGame"

text \<open>
  What happens to the game: an input event (\<^verbatim>\<open>mousedown\<close> or \<^verbatim>\<open>touchstart\<close>, both call
  \<^verbatim>\<open>handleInput\<close>) or an animation frame with its elapsed time and random numbers.
\<close>

datatype event = Input | Frame real real real

fun step :: "event \<Rightarrow> game \<Rightarrow> game" where
  "step Input s = handleInput s"
| "step (Frame deltaTime u1 u2) s = animate deltaTime u1 u2 s"

fun run :: "event list \<Rightarrow> game \<Rightarrow> game" where
  "run [] s = s"
| "run (e # es) s = run es (step e s)"

text \<open>
  The clock never runs backwards, and \<^verbatim>\<open>Math.random()\<close> returns a number in \<open>[0, 1)\<close>.
\<close>

fun validEvent :: "event \<Rightarrow> bool" where
  "validEvent Input = True"
| "validEvent (Frame deltaTime u1 u2) =
     (0 \<le> deltaTime \<and> 0 \<le> u1 \<and> u1 < 1 \<and> 0 \<le> u2 \<and> u2 < 1)"

text \<open>
  Two short runs used as examples.  In \<open>startedGame\<close> the first input has started the
  game.  In \<open>collidedGame\<close> the first frame then comes after a pause of three seconds:
  it spawns a pair with gap height 4 and gap centre 2.5 and moves it by 9 to x = -3,
  where its bottom solid (from -8 up to 0.5) meets the seed at height 0.435.
\<close>

definition startedGame :: game where
  "startedGame = run [Input] initialGame"

definition collidedGame :: game where
  "collidedGame = run [Input, Frame 3 0 (3/4)] initialGame"

text \<open>
  A longer run that reaches the top of the screen.  In \<open>scoredGame\<close> the first frame
  comes after a pause of five seconds: its pair is spawned, moved by 15 to x = -9, counted
  and despawned in that frame.  Then follow sixteen inputs, each followed by a frame of
  1/64 second, which lift the seed by 0.435 each; \<open>nearTopGame\<close> is the state after one
  more input, with the seed at height 7.395.
\<close>

definition tapsAndFrames :: "nat \<Rightarrow> event list" where
  "tapsAndFrames n = concat (replicate n [Input, Frame (1/64) 0 (3/4)])"

definition scoredGame :: game where
  "scoredGame = run [Input, Frame 5 0 (3/4)] initialGame"

definition nearTopGame :: game where
  "nearTopGame = run ([Input, Frame 5 0 (3/4)] @ tapsAndFrames 16 @ [Input]) initialGame"

text \<open>Events that are animation frames, and the bounds of the seed as a predicate.\<close>

fun isFrame :: "event \<Rightarrow> bool" where
  "isFrame Input = False"
| "isFrame (Frame deltaTime u1 u2) = True"

definition inBounds :: "game \<Rightarrow> bool" where
  "inBounds s \<longleftrightarrow> seedMinY \<le> seedY s \<and> seedY s \<le> seedMaxY"

subsection \<open>Obstacle pairs that left the game\<close>

text \<open>
  What the loop body does to one pair, seen from the pair: it is moved, and it is marked
  as passed when the seed's x position exceeds its x position.
\<close>

definition advance :: "real \<Rightarrow> real \<Rightarrow> obstacle \<Rightarrow> obstacle" where
  "advance deltaTime sx ob =
     (let moved = moveObstacle (obstacleSpeed * deltaTime) ob
      in if \<not> passed moved \<and> sx > meshX (topObstacle moved) then moved\<lparr>passed := True\<rparr> else moved)"

definition despawns :: "obstacle \<Rightarrow> bool" where
  "despawns ob \<longleftrightarrow> meshX (topObstacle ob) < obstacleDespawnX"

text \<open>A pair that the loop body marks as passed, and counts, in this frame.\<close>

definition scoresNow :: "real \<Rightarrow> real \<Rightarrow> obstacle \<Rightarrow> bool" where
  "scoresNow deltaTime sx ob \<longleftrightarrow> \<not> passed ob \<and> passed (advance deltaTime sx ob)"

text \<open>
  The scene as the obstacles list determines it: the two lights and the seed, then the
  two meshes of every pair in the order of the list.
\<close>

definition pairIds :: "obstacle \<Rightarrow> nat list" where
  "pairIds ob = [meshId (topObstacle ob), meshId (bottomObstacle ob)]"

definition sceneOf :: "obstacle list \<Rightarrow> nat list" where
  "sceneOf obs = [0, 1, 2] @ concat (map pairIds obs)"

text \<open>
  A pair as \<open>createObstacle\<close> makes it when the next unused identity is \<open>n\<close>: not passed,
  both solids at the spawn position.
\<close>

definition fresh :: "nat \<Rightarrow> obstacle \<Rightarrow> bool" where
  "fresh n ob \<longleftrightarrow>
     \<not> passed ob \<and> pairIds ob = [n, n + 1]
     \<and> meshX (topObstacle ob) = obstacleSpawnX \<and> meshX (bottomObstacle ob) = obstacleSpawnX"


text \<open>
  Invariants of the game.  The scene holds exactly the lights, the seed and the meshes
  of the pairs in the obstacles list, each once, and every identity in use is below
  \<open>nextId\<close>.  Both solids of a pair have the same x position.
\<close>

definition sceneOK :: "game \<Rightarrow> bool" where
  "sceneOK s \<longleftrightarrow>
     scene s = sceneOf (obstacles s) \<and> distinct (sceneOf (obstacles s))
     \<and> list_all (\<lambda>i. i < nextId s) (sceneOf (obstacles s))"

definition aligned :: "obstacle \<Rightarrow> bool" where
  "aligned ob \<longleftrightarrow> meshX (topObstacle ob) = meshX (bottomObstacle ob)"

definition tidy :: "game \<Rightarrow> bool" where
  "tidy s \<longleftrightarrow>
     seedX s = - viewWidth / 3 \<and> sceneOK s \<and> list_all aligned (obstacles s)
     \<and> list_all (\<lambda>ob. \<not> despawns ob) (obstacles s)"

text \<open>A pair is marked as passed exactly when it is to the left of the seed.\<close>

definition overtaken :: "game \<Rightarrow> bool" where
  "overtaken s \<longleftrightarrow>
     list_all (\<lambda>ob. passed ob \<longleftrightarrow> meshX (topObstacle ob) < seedX s) (obstacles s)"

text \<open>
  The score agrees with a list \<open>h\<close> of pairs that are gone: it is the number of passed
  pairs among those and the pairs in the obstacles list, and all of \<open>h\<close> are passed.
\<close>

definition ledger :: "game \<Rightarrow> obstacle list \<Rightarrow> bool" where
  "ledger s h \<longleftrightarrow> score s = length (filter passed (h @ obstacles s)) \<and> list_all passed h"

text \<open>
  Which pair an entry is and where its two solids are, and the same after a move to
  the left by \<open>d\<close>.
\<close>

definition placement :: "obstacle \<Rightarrow> nat list \<times> real \<times> real" where
  "placement ob = (pairIds ob, meshX (topObstacle ob), meshX (bottomObstacle ob))"

definition shifted :: "real \<Rightarrow> nat list \<times> real \<times> real \<Rightarrow> nat list \<times> real \<times> real" where
  "shifted d p = (fst p, fst (snd p) - d, snd (snd p) - d)"

text \<open>The state in which the obstacle loop of a running frame starts.\<close>

definition beforeLoop :: "real \<Rightarrow> real \<Rightarrow> real \<Rightarrow> game \<Rightarrow> game" where
  "beforeLoop deltaTime u1 u2 s =
     obstacleSpawning deltaTime u1 u2 (boundaryChecks (updateSeedMatrix (seedPhysics s)))"

text \<open>
  The pairs a frame removes by its cleanup check, each as it was when it was removed.
\<close>

definition despawnedBy :: "real \<Rightarrow> real \<Rightarrow> real \<Rightarrow> game \<Rightarrow> obstacle list" where
  "despawnedBy deltaTime u1 u2 s =
     (if gameStarted s \<and> \<not> gameOver s
      then filter despawns
             (map (advance deltaTime (seedX (beforeLoop deltaTime u1 u2 s)))
                  (obstacles (beforeLoop deltaTime u1 u2 s)))
      else [])"

text \<open>
  A history variable beside the run: the pairs despawned since the last reset.  The
  run itself is \<open>run\<close>; the history only watches it.
\<close>

fun despawnedSince :: "event list \<Rightarrow> game \<Rightarrow> obstacle list \<Rightarrow> obstacle list" where
  "despawnedSince [] s h = h"
| "despawnedSince (Input # es) s h =
     despawnedSince es (handleInput s) (if gameOver s then [] else h)"
| "despawnedSince (Frame deltaTime u1 u2 # es) s h =
     despawnedSince es (animate deltaTime u1 u2 s) (h @ despawnedBy deltaTime u1 u2 s)"


subsection \<open>The state in which collisions are checked\<close>










section \<open>The 2D-canvas variant\<close>

text \<open>
  A JavaScript string is a sequence of UTF-16 code units.  \<^verbatim>\<open>String.prototype.trim\<close>
  removes white space and line terminators from both ends; all of them are single code
  units.
\<close>

type_synonym jsstring = "nat list"

definition isWhiteSpace :: "nat \<Rightarrow> bool" where
  "isWhiteSpace c \<longleftrightarrow>
     c \<in> {9, 10, 11, 12, 13, 32, 160, 5760, 8232, 8233, 8239, 8287, 12288, 65279}
     \<or> (8192 \<le> c \<and> c \<le> 8202)"

definition trim :: "jsstring \<Rightarrow> jsstring" where
  "trim str = rev (dropWhile isWhiteSpace (rev (dropWhile isWhiteSpace str)))"

text \<open>
  The variables of the closure and what the script writes to the page: the two
  \<^verbatim>\<open>style.display\<close> properties as last assigned by the script (\<open>None\<close> while the script
  has not assigned them), the last frame drawn on the canvas (the rectangle's y, the
  name and the score printed), and the number of \<^verbatim>\<open>requestAnimationFrame(gameLoop)\<close>
  callbacks that are pending.
\<close>

record canvas =
  username :: jsstring
  running :: bool
  y_2d :: real
  vy_2d :: real
  score_2d :: nat
  introScreenDisplay :: "display option"
  gameContainerDisplay :: "display option"
  drawn :: "(real \<times> jsstring \<times> nat) option"
  pendingFrames :: nat

definition gravity_2d :: real where "gravity_2d = 1.5"

definition initialCanvas :: canvas where
  "initialCanvas =
     \<lparr>username = [], running = False, y_2d = 800, vy_2d = 0, score_2d = 0,
      introScreenDisplay = None, gameContainerDisplay = None, drawn = None,
      pendingFrames = 0\<rparr>"

definition gameLoop :: "canvas \<Rightarrow> canvas" where
  "gameLoop s =
     (if \<not> running s then s
      else
        let v1 = vy_2d s + gravity_2d;
            y1 = y_2d s + v1;
            s1 = (if y1 > 960 then s\<lparr>y_2d := 960, vy_2d := 0\<rparr> else s\<lparr>y_2d := y1, vy_2d := v1\<rparr>)
        in s1\<lparr>drawn := Some (y_2d s1, username s1, score_2d s1),
              pendingFrames := pendingFrames s1 + 1\<rparr>)"

text \<open>The click handler of the start button; \<open>value\<close> is \<^verbatim>\<open>usernameInput.value\<close>.\<close>

definition startClick :: "jsstring \<Rightarrow> canvas \<Rightarrow> canvas" where
  "startClick value s =
     (let s1 = s\<lparr>username := trim value\<rparr>
      in if username s1 = [] then s1
         else gameLoop (s1\<lparr>introScreenDisplay := Some DisplayNone,
                           gameContainerDisplay := Some DisplayBlock,
                           running := True\<rparr>))"

text \<open>The \<^verbatim>\<open>keydown\<close> handler; \<open>code\<close> is \<^verbatim>\<open>e.code\<close>.\<close>

definition keydown :: "string \<Rightarrow> canvas \<Rightarrow> canvas" where
  "keydown code s = (if code = ''Space'' \<and> y_2d s \<ge> 960 then s\<lparr>vy_2d := - 25\<rparr> else s)"

text \<open>The browser runs one pending animation-frame callback, if there is one.\<close>

definition frameCallback :: "canvas \<Rightarrow> canvas" where
  "frameCallback s =
     (if pendingFrames s = 0 then s else gameLoop (s\<lparr>pendingFrames := pendingFrames s - 1\<rparr>))"

datatype event_2d = StartClick jsstring | KeyDown string | AnimationFrame

fun step_2d :: "event_2d \<Rightarrow> canvas \<Rightarrow> canvas" where
  "step_2d (StartClick value) s = startClick value s"
| "step_2d (KeyDown code) s = keydown code s"
| "step_2d AnimationFrame s = frameCallback s"

fun run_2d :: "event_2d list \<Rightarrow> canvas \<Rightarrow> canvas" where
  "run_2d [] s = s"
| "run_2d (e # es) s = run_2d es (step_2d e s)"

text \<open>An event that is not a click on the start button with a name in the input field.\<close>

fun blankClick :: "event_2d \<Rightarrow> bool" where
  "blankClick (StartClick value) = (trim value = [])"
| "blankClick (KeyDown code) = True"
| "blankClick AnimationFrame = True"

text \<open>The canvas after one click on the start button with the name \<^verbatim>\<open>bob\<close>.\<close>

definition namedCanvas :: canvas where
  "namedCanvas = run_2d [StartClick [98, 111, 98]] initialCanvas"

text \<open>
  The integration scheme both programs are compared with: the velocity changes by the
  acceleration first, and the position then changes by the new velocity.
\<close>

definition eulerStep :: "real \<Rightarrow> real \<times> real \<Rightarrow> real \<times> real" where
  "eulerStep acc yv = (fst yv + (snd yv + acc), snd yv + acc)"



section \<open>Single-precision rounding\<close>



lemma roundTiesToEven_of_int: "roundTiesToEven (of_int k) = k"
  by (simp add: roundTiesToEven_def)


lemma bitlen_binade:
  assumes "2 ^ j \<le> n" and "n < 2 ^ Suc j"
  shows "bitlen n = int j + 1"
proof (rule antisym)
  show "bitlen n \<le> int j + 1"
    using assms(2) by (simp add: bitlen_le_iff_power nat_add_distrib)
  show "int j + 1 \<le> bitlen n"
    using assms(1) by (simp add: bitlen_ge_iff_power nat_add_distrib)
qed

lemma fround_binade:
  assumes "2 ^ j \<le> \<bar>x\<bar> * 2 ^ 149" and "\<bar>x\<bar> * 2 ^ 149 < 2 ^ Suc j" and "23 \<le> j"
  shows "fround x = of_int (roundTiesToEven (x * 2 ^ 149 / 2 ^ (j - 23))) * 2 ^ (j - 23) / 2 ^ 149"
proof -
  let ?n = "\<lfloor>\<bar>x\<bar> * 2 ^ 149\<rfloor>"
  have "(2::int) ^ j \<le> ?n"
    using assms(1) by (simp add: le_floor_iff)
  moreover have "?n < 2 ^ Suc j"
    using assms(2) by (simp add: floor_less_iff)
  ultimately have "bitlen ?n = int j + 1"
    by (rule bitlen_binade)
  then have "nat (bitlen ?n - 24) = j - 23"
    using assms(3) by simp
  then show ?thesis
    by (simp add: fround_def Let_def)
qed

lemma fround_values:
  "fround (1/2) = 1/2" "fround (3/4) = 3/4" "fround (7/4) = 7/4" "fround (17/4) = 17/4"
  by (simp_all add: fround_binade [where j = 148] fround_binade [where j = 149]
      fround_binade [where j = 151] roundTiesToEven_def)




section \<open>Unfolding rules for concrete runs\<close>

lemmas consts_defs = aspectRatio_def viewHeight_def viewWidth_def seedRadius_def gravity_def
  surgeStrength_def seedMinY_def seedMaxY_def obstacleWidth_def obstacleMinGap_def obstacleMaxGap_def
  obstacleSpawnX_def obstacleDespawnX_def obstacleSpeed_def spawnInterval_def

lemmas three_defs = vec_def identity_def compose_def dot_def applyMatrix4_vec_def expandByPoint_def
  isEmpty_def corners_def applyMatrix4_def intersectsBox_def newMesh_def updateMatrixWorld_def
  randFloat_def worldBox_def fround_values

lemmas game_defs = seedY_def seedX_def setY_def setX_def meshX_def createObstacle_def resetGame_def
  handleInput_def checkCollisions_def seedPhysics_def updateSeedMatrix_def boundaryChecks_def
  obstacleSpawning_def moveObstacle_def obstacleStep_def obstaclePhase_def collisionCheck_def
  handleGameOverState_def seedRotation_def afterPhysics_def renderMesh_def renderPair_def render_def
  gameLogic_def animate_def loadedGame_def initialGame_def

lemma collidedGame_fields:
  "gameOver collidedGame"
  "gameStarted collidedGame"
  "score collidedGame = 0"
  "map passed (obstacles collidedGame) = [False]"
  "map (\<lambda>ob. meshX (topObstacle ob)) (obstacles collidedGame) = [- 3]"
  "scene collidedGame = [0, 1, 2, 3, 4]"
  by (simp_all add: collidedGame_def game_defs three_defs consts_defs Let_def)

lemma startedGame_fields:
  "gameStarted startedGame"
  "\<not> gameOver startedGame"
  "seedY startedGame = 0"
  "seedX startedGame = - 3"
  "seedVelocityY startedGame = 0.45"
  "obstacles startedGame = []"
  "score startedGame = 0"
  by (simp_all add: startedGame_def game_defs three_defs consts_defs)


section \<open>What each phase of a frame leaves alone\<close>

lemma seedPhysics_fields:
  "seedVelocityY (seedPhysics s) = seedVelocityY s - gravity"
  "seedY (seedPhysics s) = seedY s + (seedVelocityY s - gravity)"
  "gameOver (seedPhysics s) = gameOver s"
  "gameStarted (seedPhysics s) = gameStarted s"
  "score (seedPhysics s) = score s"
  "obstacles (seedPhysics s) = obstacles s"
  by (simp_all add: seedPhysics_def seedY_def setY_def Let_def)


lemma seedPhysics_more:
  "seedX (seedPhysics s) = seedX s"
  "scene (seedPhysics s) = scene s"
  "nextId (seedPhysics s) = nextId s"
  "timeSinceLastSpawn (seedPhysics s) = timeSinceLastSpawn s"
  by (simp_all add: seedPhysics_def seedX_def setY_def Let_def)

lemma updateSeedMatrix_fields:
  "seedY (updateSeedMatrix s) = seedY s"
  "seedX (updateSeedMatrix s) = seedX s"
  "seedVelocityY (updateSeedMatrix s) = seedVelocityY s"
  "gameOver (updateSeedMatrix s) = gameOver s"
  "gameStarted (updateSeedMatrix s) = gameStarted s"
  "score (updateSeedMatrix s) = score s"
  "obstacles (updateSeedMatrix s) = obstacles s"
  "scene (updateSeedMatrix s) = scene s"
  "nextId (updateSeedMatrix s) = nextId s"
  "timeSinceLastSpawn (updateSeedMatrix s) = timeSinceLastSpawn s"
  by (simp_all add: updateSeedMatrix_def updateMatrixWorld_def seedY_def seedX_def)

lemma boundaryChecks_fields:
  "seedX (boundaryChecks s) = seedX s"
  "gameStarted (boundaryChecks s) = gameStarted s"
  "score (boundaryChecks s) = score s"
  "obstacles (boundaryChecks s) = obstacles s"
  "scene (boundaryChecks s) = scene s"
  "nextId (boundaryChecks s) = nextId s"
  "timeSinceLastSpawn (boundaryChecks s) = timeSinceLastSpawn s"
  by (simp_all add: boundaryChecks_def seedX_def setY_def)

lemma boundaryChecks_seed:
  "seedY (boundaryChecks s) =
     (if seedY s < seedMinY then seedMinY else if seedY s > seedMaxY then seedMaxY else seedY s)"
  "seedVelocityY (boundaryChecks s) =
     (if seedY s < seedMinY \<or> seedY s > seedMaxY then 0 else seedVelocityY s)"
  "gameOver (boundaryChecks s) = (gameOver s \<or> seedY s < seedMinY \<or> seedY s > seedMaxY)"
  by (simp_all add: boundaryChecks_def seedY_def setY_def)

lemma createObstacle_fields:
  "seed (createObstacle u1 u2 s) = seed s"
  "seedVelocityY (createObstacle u1 u2 s) = seedVelocityY s"
  "gameOver (createObstacle u1 u2 s) = gameOver s"
  "gameStarted (createObstacle u1 u2 s) = gameStarted s"
  "score (createObstacle u1 u2 s) = score s"
  "seedVisible (createObstacle u1 u2 s) = seedVisible s"
  by (simp_all add: createObstacle_def Let_def)

lemma obstacleSpawning_fields:
  "seed (obstacleSpawning dt u1 u2 s) = seed s"
  "seedVelocityY (obstacleSpawning dt u1 u2 s) = seedVelocityY s"
  "gameOver (obstacleSpawning dt u1 u2 s) = gameOver s"
  "gameStarted (obstacleSpawning dt u1 u2 s) = gameStarted s"
  "score (obstacleSpawning dt u1 u2 s) = score s"
  "seedVisible (obstacleSpawning dt u1 u2 s) = seedVisible s"
  by (simp_all add: obstacleSpawning_def Let_def createObstacle_fields)

lemma obstacleStep_fields:
  "seed (obstacleStep dt i s) = seed s"
  "seedVelocityY (obstacleStep dt i s) = seedVelocityY s"
  "gameOver (obstacleStep dt i s) = gameOver s"
  "gameStarted (obstacleStep dt i s) = gameStarted s"
  "seedVisible (obstacleStep dt i s) = seedVisible s"
  "timeSinceLastSpawn (obstacleStep dt i s) = timeSinceLastSpawn s"
  "nextId (obstacleStep dt i s) = nextId s"
  by (simp_all add: obstacleStep_def Let_def)

lemma obstacleLoop_fields:
  "seed (obstacleLoop dt n s) = seed s"
  "seedVelocityY (obstacleLoop dt n s) = seedVelocityY s"
  "gameOver (obstacleLoop dt n s) = gameOver s"
  "gameStarted (obstacleLoop dt n s) = gameStarted s"
  "seedVisible (obstacleLoop dt n s) = seedVisible s"
  "timeSinceLastSpawn (obstacleLoop dt n s) = timeSinceLastSpawn s"
  "nextId (obstacleLoop dt n s) = nextId s"
  by (induction n arbitrary: s; simp add: obstacleStep_fields)+

lemma obstaclePhase_fields:
  "seed (obstaclePhase dt s) = seed s"
  "seedVelocityY (obstaclePhase dt s) = seedVelocityY s"
  "gameOver (obstaclePhase dt s) = gameOver s"
  "gameStarted (obstaclePhase dt s) = gameStarted s"
  "seedVisible (obstaclePhase dt s) = seedVisible s"
  "timeSinceLastSpawn (obstaclePhase dt s) = timeSinceLastSpawn s"
  "nextId (obstaclePhase dt s) = nextId s"
  by (simp_all add: obstaclePhase_def obstacleLoop_fields)

lemma collisionCheck_fields:
  "seed (collisionCheck s) = seed s"
  "seedVelocityY (collisionCheck s) = seedVelocityY s"
  "gameStarted (collisionCheck s) = gameStarted s"
  "score (collisionCheck s) = score s"
  "obstacles (collisionCheck s) = obstacles s"
  "scene (collisionCheck s) = scene s"
  "seedVisible (collisionCheck s) = seedVisible s"
  by (simp_all add: collisionCheck_def)

lemma collisionCheck_gameOver:
  "gameOver (collisionCheck s) = (gameOver s \<or> checkCollisions s)"
  by (simp add: collisionCheck_def)

lemma handleGameOverState_fields:
  "seed (handleGameOverState s) = seed s"
  "seedVelocityY (handleGameOverState s) = seedVelocityY s"
  "gameStarted (handleGameOverState s) = gameStarted s"
  "gameOver (handleGameOverState s) = gameOver s"
  "score (handleGameOverState s) = score s"
  "obstacles (handleGameOverState s) = obstacles s"
  "scene (handleGameOverState s) = scene s"
  by (simp_all add: handleGameOverState_def)

lemma seedRotation_fields:
  "seedY (seedRotation dt s) = seedY s"
  "seedX (seedRotation dt s) = seedX s"
  "seedVelocityY (seedRotation dt s) = seedVelocityY s"
  "gameStarted (seedRotation dt s) = gameStarted s"
  "gameOver (seedRotation dt s) = gameOver s"
  "score (seedRotation dt s) = score s"
  "obstacles (seedRotation dt s) = obstacles s"
  "scene (seedRotation dt s) = scene s"
  by (simp_all add: seedRotation_def seedY_def seedX_def)

lemma render_fields:
  "seedY (render s) = seedY s"
  "seedX (render s) = seedX s"
  "seedVelocityY (render s) = seedVelocityY s"
  "gameStarted (render s) = gameStarted s"
  "gameOver (render s) = gameOver s"
  "score (render s) = score s"
  "scene (render s) = scene s"
  by (simp_all add: render_def renderMesh_def updateMatrixWorld_def seedY_def seedX_def)

lemma seedY_cong: "seed s = seed t \<Longrightarrow> seedY s = seedY t"
  by (simp add: seedY_def)

lemma afterPhysics_seed:
  "seedY (afterPhysics dt u1 u2 s) =
     (if seedY s < seedMinY then seedMinY else if seedY s > seedMaxY then seedMaxY else seedY s)"
  "seedVelocityY (afterPhysics dt u1 u2 s) =
     (if seedY s < seedMinY \<or> seedY s > seedMaxY then 0 else seedVelocityY s)"
proof -
  let ?b = "boundaryChecks (updateSeedMatrix s)"
  have "seed (handleGameOverState (collisionCheck (obstaclePhase dt (obstacleSpawning dt u1 u2 ?b)))) = seed ?b"
    by (simp add: handleGameOverState_fields collisionCheck_fields obstaclePhase_fields obstacleSpawning_fields)
  then have "seedY (afterPhysics dt u1 u2 s) = seedY ?b"
    unfolding afterPhysics_def seedRotation_fields by (rule seedY_cong)
  then show "seedY (afterPhysics dt u1 u2 s) =
     (if seedY s < seedMinY then seedMinY else if seedY s > seedMaxY then seedMaxY else seedY s)"
    by (simp add: boundaryChecks_seed updateSeedMatrix_fields)
  show "seedVelocityY (afterPhysics dt u1 u2 s) =
     (if seedY s < seedMinY \<or> seedY s > seedMaxY then 0 else seedVelocityY s)"
    by (simp add: afterPhysics_def seedRotation_fields handleGameOverState_fields collisionCheck_fields
        obstaclePhase_fields obstacleSpawning_fields boundaryChecks_seed updateSeedMatrix_fields)
qed


section \<open>The obstacle loop\<close>


lemma moveObstacle_passed: "passed (moveObstacle m ob) = passed ob"
  by (simp add: moveObstacle_def)

lemma moveObstacle_x:
  "meshX (topObstacle (moveObstacle m ob)) = meshX (topObstacle ob) - m"
  "meshX (bottomObstacle (moveObstacle m ob)) = meshX (bottomObstacle ob) - m"
  by (simp_all add: moveObstacle_def meshX_def setX_def updateMatrixWorld_def)

lemma moveObstacle_ids:
  "meshId (topObstacle (moveObstacle m ob)) = meshId (topObstacle ob)"
  "meshId (bottomObstacle (moveObstacle m ob)) = meshId (bottomObstacle ob)"
  by (simp_all add: moveObstacle_def setX_def updateMatrixWorld_def)

lemma advance_x:
  "meshX (topObstacle (advance dt sx ob)) = meshX (topObstacle ob) - obstacleSpeed * dt"
  "meshX (bottomObstacle (advance dt sx ob)) = meshX (bottomObstacle ob) - obstacleSpeed * dt"
  by (simp_all add: advance_def Let_def moveObstacle_x)

lemma advance_ids:
  "meshId (topObstacle (advance dt sx ob)) = meshId (topObstacle ob)"
  "meshId (bottomObstacle (advance dt sx ob)) = meshId (bottomObstacle ob)"
  by (simp_all add: advance_def Let_def moveObstacle_ids)

lemma advance_passed:
  "passed (advance dt sx ob) \<longleftrightarrow>
     passed ob \<or> sx > meshX (topObstacle ob) - obstacleSpeed * dt"
  by (auto simp add: advance_def Let_def moveObstacle_passed moveObstacle_x)

text \<open>The loop body, field by field.\<close>

lemma obstacleStep_obstacles:
  assumes "i < length (obstacles s)"
  shows "obstacles (obstacleStep dt i s) =
           take i (obstacles s)
           @ (if despawns (advance dt (seedX s) (obstacles s ! i)) then []
              else [advance dt (seedX s) (obstacles s ! i)])
           @ drop (Suc i) (obstacles s)"
  using assms
  by (simp add: obstacleStep_def advance_def despawns_def Let_def upd_conv_take_nth_drop)

lemma obstacleStep_score:
  assumes "i < length (obstacles s)"
  shows "score (obstacleStep dt i s) =
           score s + (if \<not> passed (obstacles s ! i)
                          \<and> passed (advance dt (seedX s) (obstacles s ! i)) then 1 else 0)"
  using assms
  by (simp add: obstacleStep_def advance_def Let_def moveObstacle_passed)

lemma obstacleStep_scene:
  assumes "i < length (obstacles s)"
  shows "scene (obstacleStep dt i s) =
           (if despawns (advance dt (seedX s) (obstacles s ! i))
            then removeAll_scene [advance dt (seedX s) (obstacles s ! i)] (scene s)
            else scene s)"
  using assms
  by (simp add: obstacleStep_def advance_def despawns_def Let_def)

lemma obstacleStep_seedX: "seedX (obstacleStep dt i s) = seedX s"
  by (simp add: seedX_def obstacleStep_fields)

lemma removeAll_scene_append:
  "removeAll_scene (xs @ ys) sc = removeAll_scene ys (removeAll_scene xs sc)"
  by (induction xs arbitrary: sc) simp_all

text \<open>The loop, by induction on the number of indices still to visit.\<close>

lemma obstacleLoop_obstacles:
  "n \<le> length (obstacles s) \<Longrightarrow>
   obstacles (obstacleLoop dt n s) =
     filter (\<lambda>ob. \<not> despawns ob) (map (advance dt (seedX s)) (take n (obstacles s)))
     @ drop n (obstacles s)"
proof (induction n arbitrary: s)
  case 0
  then show ?case by simp
next
  case (Suc n)
  let ?s' = "obstacleStep dt n s"
  have lt: "n < length (obstacles s)" using Suc.prems by simp
  have obs': "obstacles ?s' =
           take n (obstacles s)
           @ (if despawns (advance dt (seedX s) (obstacles s ! n)) then []
              else [advance dt (seedX s) (obstacles s ! n)])
           @ drop (Suc n) (obstacles s)"
    by (rule obstacleStep_obstacles [OF lt])
  have len: "n \<le> length (obstacles ?s')"
    using lt by (simp add: obs')
  have tk: "take n (obstacles ?s') = take n (obstacles s)"
    using lt by (simp add: obs')
  have dr: "drop n (obstacles ?s') =
      (if despawns (advance dt (seedX s) (obstacles s ! n)) then []
       else [advance dt (seedX s) (obstacles s ! n)]) @ drop (Suc n) (obstacles s)"
    using lt by (simp add: obs')
  show ?case
    using Suc.IH [OF len]
    by (simp add: tk dr obstacleStep_seedX take_Suc_conv_app_nth [OF lt])
qed

lemma obstacleLoop_score:
  "n \<le> length (obstacles s) \<Longrightarrow>
   score (obstacleLoop dt n s) =
     score s + length (filter (scoresNow dt (seedX s)) (take n (obstacles s)))"
proof (induction n arbitrary: s)
  case 0
  then show ?case by simp
next
  case (Suc n)
  let ?s' = "obstacleStep dt n s"
  have lt: "n < length (obstacles s)" using Suc.prems by simp
  have len: "n \<le> length (obstacles ?s')"
    using lt by (simp add: obstacleStep_obstacles [OF lt])
  have tk: "take n (obstacles ?s') = take n (obstacles s)"
    using lt by (simp add: obstacleStep_obstacles [OF lt])
  show ?case
    using Suc.IH [OF len]
    by (simp add: tk obstacleStep_seedX obstacleStep_score [OF lt] scoresNow_def
        take_Suc_conv_app_nth [OF lt])
qed

lemma obstacleLoop_scene:
  "n \<le> length (obstacles s) \<Longrightarrow>
   scene (obstacleLoop dt n s) =
     removeAll_scene (rev (filter despawns (map (advance dt (seedX s)) (take n (obstacles s)))))
       (scene s)"
proof (induction n arbitrary: s)
  case 0
  then show ?case by simp
next
  case (Suc n)
  let ?s' = "obstacleStep dt n s"
  have lt: "n < length (obstacles s)" using Suc.prems by simp
  have len: "n \<le> length (obstacles ?s')"
    using lt by (simp add: obstacleStep_obstacles [OF lt])
  have tk: "take n (obstacles ?s') = take n (obstacles s)"
    using lt by (simp add: obstacleStep_obstacles [OF lt])
  show ?case
    using Suc.IH [OF len]
    by (simp add: tk obstacleStep_seedX obstacleStep_scene [OF lt]
        take_Suc_conv_app_nth [OF lt] removeAll_scene_append)
qed

lemma obstaclePhase_obstacles:
  "obstacles (obstaclePhase dt s) =
     filter (\<lambda>ob. \<not> despawns ob) (map (advance dt (seedX s)) (obstacles s))"
  by (simp add: obstaclePhase_def obstacleLoop_obstacles)

lemma obstaclePhase_score:
  "score (obstaclePhase dt s) = score s + length (filter (scoresNow dt (seedX s)) (obstacles s))"
  by (simp add: obstaclePhase_def obstacleLoop_score)

lemma obstaclePhase_scene:
  "scene (obstaclePhase dt s) =
     removeAll_scene (rev (filter despawns (map (advance dt (seedX s)) (obstacles s)))) (scene s)"
  by (simp add: obstaclePhase_def obstacleLoop_scene)


section \<open>A frame as a whole\<close>


lemma phases_more:
  "scoreText (seedPhysics s) = scoreText s"
  "scoreText (updateSeedMatrix s) = scoreText s"
  "scoreText (boundaryChecks s) = scoreText s"
  "scoreText (collisionCheck s) = scoreText s"
  "scoreText (handleGameOverState s) = scoreText s"
  "scoreText (seedRotation dt s) = scoreText s"
  "scoreText (render s) = scoreText s"
  "nextId (collisionCheck s) = nextId s"
  "nextId (handleGameOverState s) = nextId s"
  "nextId (seedRotation dt s) = nextId s"
  "nextId (render s) = nextId s"
  "timeSinceLastSpawn (collisionCheck s) = timeSinceLastSpawn s"
  "timeSinceLastSpawn (handleGameOverState s) = timeSinceLastSpawn s"
  "timeSinceLastSpawn (seedRotation dt s) = timeSinceLastSpawn s"
  "timeSinceLastSpawn (render s) = timeSinceLastSpawn s"
  by (simp_all add: seedPhysics_def updateSeedMatrix_def boundaryChecks_def collisionCheck_def
      handleGameOverState_def seedRotation_def render_def Let_def)

lemma render_obstacles: "obstacles (render s) = map (renderPair (scene s)) (obstacles s)"
  by (simp add: render_def)

lemma renderPair_fields:
  "passed (renderPair sc ob) = passed ob"
  "meshX (topObstacle (renderPair sc ob)) = meshX (topObstacle ob)"
  "meshX (bottomObstacle (renderPair sc ob)) = meshX (bottomObstacle ob)"
  "pairIds (renderPair sc ob) = pairIds ob"
  "despawns (renderPair sc ob) = despawns ob"
  by (simp_all add: renderPair_def renderMesh_def updateMatrixWorld_def meshX_def pairIds_def
      despawns_def)

lemma createObstacle_cases:
  "(obstacles (createObstacle u1 u2 s) = obstacles s
      \<and> scene (createObstacle u1 u2 s) = scene s
      \<and> nextId (createObstacle u1 u2 s) = nextId s)
   \<or> (\<exists>ob. fresh (nextId s) ob
         \<and> obstacles (createObstacle u1 u2 s) = obstacles s @ [ob]
         \<and> scene (createObstacle u1 u2 s) = scene s @ pairIds ob
         \<and> nextId (createObstacle u1 u2 s) = nextId s + 2)"
  by (simp add: createObstacle_def Let_def fresh_def pairIds_def newMesh_def meshX_def vec_def)

lemma createObstacle_more:
  "scoreText (createObstacle u1 u2 s) = scoreText s"
  "timeSinceLastSpawn (createObstacle u1 u2 s) = timeSinceLastSpawn s"
  by (simp_all add: createObstacle_def Let_def)

lemma obstacleSpawning_cases:
  "(obstacles (obstacleSpawning dt u1 u2 s) = obstacles s
      \<and> scene (obstacleSpawning dt u1 u2 s) = scene s
      \<and> nextId (obstacleSpawning dt u1 u2 s) = nextId s)
   \<or> (\<exists>ob. fresh (nextId s) ob
         \<and> obstacles (obstacleSpawning dt u1 u2 s) = obstacles s @ [ob]
         \<and> scene (obstacleSpawning dt u1 u2 s) = scene s @ pairIds ob
         \<and> nextId (obstacleSpawning dt u1 u2 s) = nextId s + 2)"
proof -
  let ?s1 = "s\<lparr>timeSinceLastSpawn := timeSinceLastSpawn s + dt\<rparr>"
  show ?thesis
    using createObstacle_cases [of u1 u2 ?s1]
    by (auto simp add: obstacleSpawning_def Let_def)
qed

lemma obstacleSpawning_scoreText:
  "scoreText (obstacleSpawning dt u1 u2 s) = scoreText s"
  by (simp add: obstacleSpawning_def Let_def createObstacle_more)

lemma beforeLoop_fields:
  "seedX (beforeLoop dt u1 u2 s) = seedX s"
  "score (beforeLoop dt u1 u2 s) = score s"
  "scoreText (beforeLoop dt u1 u2 s) = scoreText s"
  "gameStarted (beforeLoop dt u1 u2 s) = gameStarted s"
  by (simp_all add: beforeLoop_def seedX_def obstacleSpawning_fields obstacleSpawning_scoreText
      boundaryChecks_fields [unfolded seedX_def] updateSeedMatrix_fields [unfolded seedX_def]
      seedPhysics_fields seedPhysics_more [unfolded seedX_def] phases_more)

lemma beforeLoop_gameOver:
  "gameOver (beforeLoop dt u1 u2 s) \<longleftrightarrow>
     gameOver s \<or> seedY s + (seedVelocityY s - gravity) < seedMinY
                \<or> seedY s + (seedVelocityY s - gravity) > seedMaxY"
  by (simp add: beforeLoop_def obstacleSpawning_fields boundaryChecks_seed updateSeedMatrix_fields
      seedPhysics_fields)

lemma beforeLoop_cases:
  "(obstacles (beforeLoop dt u1 u2 s) = obstacles s
      \<and> scene (beforeLoop dt u1 u2 s) = scene s
      \<and> nextId (beforeLoop dt u1 u2 s) = nextId s)
   \<or> (\<exists>ob. fresh (nextId s) ob
         \<and> obstacles (beforeLoop dt u1 u2 s) = obstacles s @ [ob]
         \<and> scene (beforeLoop dt u1 u2 s) = scene s @ pairIds ob
         \<and> nextId (beforeLoop dt u1 u2 s) = nextId s + 2)"
  using obstacleSpawning_cases [of dt u1 u2 "boundaryChecks (updateSeedMatrix (seedPhysics s))"]
  by (simp add: beforeLoop_def boundaryChecks_fields updateSeedMatrix_fields seedPhysics_fields
      seedPhysics_more)

lemma gameLogic_running:
  "gameStarted s \<Longrightarrow> \<not> gameOver s \<Longrightarrow>
   gameLogic dt u1 u2 s =
     seedRotation dt (handleGameOverState (collisionCheck (obstaclePhase dt (beforeLoop dt u1 u2 s))))"
  by (simp add: gameLogic_def afterPhysics_def beforeLoop_def)

lemma gameLogic_idle:
  assumes "\<not> (gameStarted s \<and> \<not> gameOver s)"
  shows "obstacles (gameLogic dt u1 u2 s) = obstacles s"
    "scene (gameLogic dt u1 u2 s) = scene s"
    "nextId (gameLogic dt u1 u2 s) = nextId s"
    "score (gameLogic dt u1 u2 s) = score s"
    "scoreText (gameLogic dt u1 u2 s) = scoreText s"
    "seed (gameLogic dt u1 u2 s) = seed s"
    "seedVelocityY (gameLogic dt u1 u2 s) = seedVelocityY s"
    "gameOver (gameLogic dt u1 u2 s) = gameOver s"
    "gameStarted (gameLogic dt u1 u2 s) = gameStarted s"
    "timeSinceLastSpawn (gameLogic dt u1 u2 s) = timeSinceLastSpawn s"
  using assms by (auto simp add: gameLogic_def Let_def)

lemma animate_idle:
  assumes "\<not> (gameStarted s \<and> \<not> gameOver s)"
  shows "obstacles (animate dt u1 u2 s) = map (renderPair (scene s)) (obstacles s)"
    "scene (animate dt u1 u2 s) = scene s"
    "nextId (animate dt u1 u2 s) = nextId s"
    "score (animate dt u1 u2 s) = score s"
    "scoreText (animate dt u1 u2 s) = scoreText s"
    "seedY (animate dt u1 u2 s) = seedY s"
    "seedX (animate dt u1 u2 s) = seedX s"
    "seedVelocityY (animate dt u1 u2 s) = seedVelocityY s"
    "gameOver (animate dt u1 u2 s) = gameOver s"
    "gameStarted (animate dt u1 u2 s) = gameStarted s"
    "timeSinceLastSpawn (animate dt u1 u2 s) = timeSinceLastSpawn s"
  by (simp_all add: animate_def render_fields render_obstacles phases_more
      gameLogic_idle [OF assms] seedY_def [of "gameLogic dt u1 u2 s"]
      seedX_def [of "gameLogic dt u1 u2 s"] seedY_def [of s] seedX_def [of s])

lemma animate_running:
  assumes "gameStarted s" and "\<not> gameOver s"
  shows "obstacles (animate dt u1 u2 s) =
           map (renderPair (scene (animate dt u1 u2 s)))
             (filter (\<lambda>ob. \<not> despawns ob)
                (map (advance dt (seedX s)) (obstacles (beforeLoop dt u1 u2 s))))"
    "score (animate dt u1 u2 s) =
       score s + length (filter (scoresNow dt (seedX s)) (obstacles (beforeLoop dt u1 u2 s)))"
    "scene (animate dt u1 u2 s) = scene (obstaclePhase dt (beforeLoop dt u1 u2 s))"
    "nextId (animate dt u1 u2 s) = nextId (beforeLoop dt u1 u2 s)"
    "seedX (animate dt u1 u2 s) = seedX s"
    "gameStarted (animate dt u1 u2 s)"
    "gameOver (animate dt u1 u2 s) \<longleftrightarrow>
       gameOver (beforeLoop dt u1 u2 s) \<or> checkCollisions (obstaclePhase dt (beforeLoop dt u1 u2 s))"
proof -
  note gl = gameLogic_running [OF assms, of dt u1 u2]
  show "scene (animate dt u1 u2 s) = scene (obstaclePhase dt (beforeLoop dt u1 u2 s))"
    by (simp add: animate_def gl render_fields seedRotation_fields handleGameOverState_fields
        collisionCheck_fields)
  then show "obstacles (animate dt u1 u2 s) =
           map (renderPair (scene (animate dt u1 u2 s)))
             (filter (\<lambda>ob. \<not> despawns ob)
                (map (advance dt (seedX s)) (obstacles (beforeLoop dt u1 u2 s))))"
    by (simp add: animate_def gl render_obstacles seedRotation_fields handleGameOverState_fields
        collisionCheck_fields obstaclePhase_obstacles beforeLoop_fields)
  show "score (animate dt u1 u2 s) =
       score s + length (filter (scoresNow dt (seedX s)) (obstacles (beforeLoop dt u1 u2 s)))"
    by (simp add: animate_def gl render_fields seedRotation_fields handleGameOverState_fields
        collisionCheck_fields obstaclePhase_score beforeLoop_fields)
  show "nextId (animate dt u1 u2 s) = nextId (beforeLoop dt u1 u2 s)"
    by (simp add: animate_def gl phases_more obstaclePhase_fields)
  have "seed (handleGameOverState (collisionCheck (obstaclePhase dt (beforeLoop dt u1 u2 s))))
        = seed (beforeLoop dt u1 u2 s)"
    by (simp add: handleGameOverState_fields collisionCheck_fields obstaclePhase_fields)
  then have "seedX (handleGameOverState (collisionCheck (obstaclePhase dt (beforeLoop dt u1 u2 s))))
        = seedX (beforeLoop dt u1 u2 s)"
    by (simp add: seedX_def)
  then show "seedX (animate dt u1 u2 s) = seedX s"
    by (simp add: animate_def gl render_fields seedRotation_fields beforeLoop_fields)
  show "gameStarted (animate dt u1 u2 s)"
    using assms
    by (simp add: animate_def gl render_fields seedRotation_fields handleGameOverState_fields
        collisionCheck_fields obstaclePhase_fields beforeLoop_fields)
  show "gameOver (animate dt u1 u2 s) \<longleftrightarrow>
       gameOver (beforeLoop dt u1 u2 s) \<or> checkCollisions (obstaclePhase dt (beforeLoop dt u1 u2 s))"
    by (simp add: animate_def gl render_fields seedRotation_fields handleGameOverState_fields
        collisionCheck_gameOver obstaclePhase_fields)
qed


section \<open>Invariants of the scene and of the pairs\<close>


lemma run_append: "run (xs @ ys) s = run ys (run xs s)"
  by (induction xs arbitrary: s) simp_all

lemma remove_pair:
  assumes "distinct (xs @ [t, b] @ ys)"
  shows "remove1 b (remove1 t (xs @ [t, b] @ ys)) = xs @ ys"
  using assms by (simp add: remove1_append)

lemma sceneOf_split:
  assumes "i < length obs"
  shows "sceneOf obs =
           ([0, 1, 2] @ concat (map pairIds (take i obs)))
           @ [meshId (topObstacle (obs ! i)), meshId (bottomObstacle (obs ! i))]
           @ concat (map pairIds (drop (Suc i) obs))"
proof -
  have "obs = take i obs @ (obs ! i) # drop (Suc i) obs"
    using assms by (rule id_take_nth_drop)
  then have "map pairIds obs = map pairIds (take i obs) @ pairIds (obs ! i) # map pairIds (drop (Suc i) obs)"
    by (metis list.simps(9) map_append)
  then show ?thesis
    by (simp add: sceneOf_def pairIds_def)
qed

lemma obstacleStep_sceneOK:
  assumes ok: "sceneOK s" and lt: "i < length (obstacles s)"
  shows "sceneOK (obstacleStep dt i s)"
proof -
  let ?a = "advance dt (seedX s) (obstacles s ! i)"
  let ?xs = "[0, 1, 2] @ concat (map pairIds (take i (obstacles s)))"
  let ?ys = "concat (map pairIds (drop (Suc i) (obstacles s)))"
  let ?t = "meshId (topObstacle (obstacles s ! i))"
  let ?b = "meshId (bottomObstacle (obstacles s ! i))"
  have sc: "scene s = ?xs @ [?t, ?b] @ ?ys"
    using ok sceneOf_split [OF lt] by (simp add: sceneOK_def)
  have d: "distinct (?xs @ [?t, ?b] @ ?ys)"
    using ok sc by (simp add: sceneOK_def)
  have bound: "list_all (\<lambda>i. i < nextId s) (?xs @ [?t, ?b] @ ?ys)"
    using ok sc by (simp add: sceneOK_def)
  have ids: "pairIds ?a = [?t, ?b]"
    by (simp add: pairIds_def advance_ids)
  show ?thesis
  proof (cases "despawns ?a")
    case True
    have "scene (obstacleStep dt i s) = remove1 ?b (remove1 ?t (?xs @ [?t, ?b] @ ?ys))"
      using True sc by (simp add: obstacleStep_scene [OF lt] advance_ids)
    then have s': "scene (obstacleStep dt i s) = ?xs @ ?ys"
      using remove_pair [OF d] by simp
    have o': "obstacles (obstacleStep dt i s) = take i (obstacles s) @ drop (Suc i) (obstacles s)"
      using True by (simp add: obstacleStep_obstacles [OF lt])
    show ?thesis
      using d bound by (simp add: sceneOK_def s' o' sceneOf_def obstacleStep_fields)
  next
    case False
    have s': "scene (obstacleStep dt i s) = ?xs @ [?t, ?b] @ ?ys"
      using False sc by (simp add: obstacleStep_scene [OF lt])
    have o': "obstacles (obstacleStep dt i s) =
        take i (obstacles s) @ [?a] @ drop (Suc i) (obstacles s)"
      using False by (simp add: obstacleStep_obstacles [OF lt])
    show ?thesis
      using d bound ids by (simp add: sceneOK_def s' o' sceneOf_def obstacleStep_fields)
  qed
qed

lemma obstacleLoop_sceneOK:
  "n \<le> length (obstacles s) \<Longrightarrow> sceneOK s \<Longrightarrow> sceneOK (obstacleLoop dt n s)"
proof (induction n arbitrary: s)
  case 0
  then show ?case by simp
next
  case (Suc n)
  have lt: "n < length (obstacles s)" using Suc.prems by simp
  have len: "n \<le> length (obstacles (obstacleStep dt n s))"
    using lt by (simp add: obstacleStep_obstacles [OF lt])
  show ?case
    using Suc.IH [OF len obstacleStep_sceneOK [OF Suc.prems(2) lt]] by simp
qed

lemma obstaclePhase_sceneOK: "sceneOK s \<Longrightarrow> sceneOK (obstaclePhase dt s)"
  by (simp add: obstaclePhase_def obstacleLoop_sceneOK)


lemma beforeLoop_sceneOK:
  assumes "sceneOK s"
  shows "sceneOK (beforeLoop dt u1 u2 s)"
proof -
  from beforeLoop_cases [of dt u1 u2 s] show ?thesis
  proof (elim disjE conjE exE)
    assume "obstacles (beforeLoop dt u1 u2 s) = obstacles s"
      "scene (beforeLoop dt u1 u2 s) = scene s" "nextId (beforeLoop dt u1 u2 s) = nextId s"
    then show ?thesis using assms by (simp add: sceneOK_def)
  next
    fix ob
    assume f: "fresh (nextId s) ob"
      and o: "obstacles (beforeLoop dt u1 u2 s) = obstacles s @ [ob]"
      and sc: "scene (beforeLoop dt u1 u2 s) = scene s @ pairIds ob"
      and n: "nextId (beforeLoop dt u1 u2 s) = nextId s + 2"
    have ids: "pairIds ob = [nextId s, nextId s + 1]"
      using f by (simp add: fresh_def)
    have b: "\<forall>i\<in>set (sceneOf (obstacles s)). i < nextId s"
      using assms by (simp add: sceneOK_def list_all_iff)
    have so: "sceneOf (obstacles s @ [ob]) = sceneOf (obstacles s) @ [nextId s, nextId s + 1]"
      by (simp add: sceneOf_def ids)
    have d: "distinct (sceneOf (obstacles s) @ [nextId s, nextId s + 1])"
      using assms b by (auto simp add: sceneOK_def)
    have l: "list_all (\<lambda>i. i < nextId s + 2) (sceneOf (obstacles s) @ [nextId s, nextId s + 1])"
      using b by (auto simp add: list_all_iff)
    show ?thesis
      unfolding sceneOK_def o sc n so ids
      using assms d l by (simp add: sceneOK_def)
  qed
qed

lemma sceneOK_render:
  assumes "sceneOK t" and "scene s = scene t" and "nextId s = nextId t"
    and "obstacles s = map (renderPair sc) (obstacles t)"
  shows "sceneOK s"
proof -
  have "map pairIds (obstacles s) = map pairIds (obstacles t)"
    by (simp add: assms(4) renderPair_fields o_def)
  then have "sceneOf (obstacles s) = sceneOf (obstacles t)"
    by (simp add: sceneOf_def)
  then show ?thesis
    using assms(1-3) by (simp add: sceneOK_def)
qed

lemma list_all_renderPair:
  "list_all aligned (map (renderPair sc) obs) = list_all aligned obs"
  "list_all (\<lambda>ob. \<not> despawns ob) (map (renderPair sc) obs) = list_all (\<lambda>ob. \<not> despawns ob) obs"
  by (simp_all add: list_all_iff aligned_def renderPair_fields)


lemma beforeLoop_aligned:
  assumes "list_all aligned (obstacles s)"
  shows "list_all aligned (obstacles (beforeLoop dt u1 u2 s))"
proof -
  from beforeLoop_cases [of dt u1 u2 s] show ?thesis
  proof (elim disjE conjE exE)
    assume "obstacles (beforeLoop dt u1 u2 s) = obstacles s"
    then show ?thesis using assms by simp
  next
    fix ob
    assume f: "fresh (nextId s) ob"
      and o: "obstacles (beforeLoop dt u1 u2 s) = obstacles s @ [ob]"
    have "aligned ob" using f by (simp add: fresh_def aligned_def)
    then show ?thesis using assms by (simp add: o)
  qed
qed

lemma advance_aligned: "aligned ob \<Longrightarrow> aligned (advance dt sx ob)"
  by (simp add: aligned_def advance_x)

lemma animate_tidy:
  assumes "tidy s"
  shows "tidy (animate dt u1 u2 s)"
proof (cases "gameStarted s \<and> \<not> gameOver s")
  case False
  note ai = animate_idle [OF False, of dt u1 u2]
  have "sceneOK s" using assms by (simp add: tidy_def)
  then have "sceneOK (animate dt u1 u2 s)"
    using ai(2) ai(3) ai(1) by (rule sceneOK_render)
  then show ?thesis
    using assms by (simp add: tidy_def ai list_all_renderPair)
next
  case True
  then have r: "gameStarted s" "\<not> gameOver s" by simp_all
  note ar = animate_running [OF r, of dt u1 u2]
  let ?l = "obstaclePhase dt (beforeLoop dt u1 u2 s)"
  let ?kept = "filter (\<lambda>ob. \<not> despawns ob)
                 (map (advance dt (seedX s)) (obstacles (beforeLoop dt u1 u2 s)))"
  have "sceneOK s" using assms by (simp add: tidy_def)
  then have okl: "sceneOK ?l"
    by (simp add: obstaclePhase_sceneOK beforeLoop_sceneOK)
  have obsl: "obstacles (animate dt u1 u2 s) =
      map (renderPair (scene (animate dt u1 u2 s))) (obstacles ?l)"
    by (simp add: ar(1) obstaclePhase_obstacles beforeLoop_fields)
  have nid: "nextId (animate dt u1 u2 s) = nextId ?l"
    by (simp add: ar(4) obstaclePhase_fields)
  have ok: "sceneOK (animate dt u1 u2 s)"
    using okl ar(3) nid obsl by (rule sceneOK_render)
  have "list_all aligned (obstacles s)" using assms by (simp add: tidy_def)
  then have "list_all aligned (obstacles (beforeLoop dt u1 u2 s))"
    by (rule beforeLoop_aligned)
  then have al: "list_all aligned ?kept"
    by (auto simp add: list_all_iff advance_aligned)
  have nd: "list_all (\<lambda>ob. \<not> despawns ob) ?kept"
    by (simp add: list_all_iff)
  have sx: "seedX (animate dt u1 u2 s) = - viewWidth / 3"
    using assms by (simp add: ar(5) tidy_def)
  show ?thesis
    unfolding tidy_def ar(1) list_all_renderPair
    using sx ok al nd by simp
qed


lemma remove_all_pairs:
  "distinct (base @ concat (map pairIds obs)) \<Longrightarrow>
   removeAll_scene obs (base @ concat (map pairIds obs)) = base"
proof (induction obs)
  case Nil
  then show ?case by simp
next
  case (Cons ob obs)
  let ?t = "meshId (topObstacle ob)" and ?b = "meshId (bottomObstacle ob)"
  have cc: "concat (map pairIds (ob # obs)) = [?t, ?b] @ concat (map pairIds obs)"
    by (simp add: pairIds_def)
  have d: "distinct (base @ [?t, ?b] @ concat (map pairIds obs))"
    using Cons.prems unfolding cc .
  have r: "remove1 ?b (remove1 ?t (base @ [?t, ?b] @ concat (map pairIds obs)))
        = base @ concat (map pairIds obs)"
    by (rule remove_pair [OF d])
  have d': "distinct (base @ concat (map pairIds obs))"
    using d by simp
  have "removeAll_scene (ob # obs) (base @ concat (map pairIds (ob # obs)))
        = removeAll_scene obs (base @ concat (map pairIds obs))"
    unfolding cc removeAll_scene.simps r ..
  then show ?case
    using Cons.IH [OF d'] by simp
qed

lemma resetGame_tidy:
  assumes "tidy s"
  shows "tidy (resetGame s)"
proof -
  have d: "distinct ([0, 1, 2] @ concat (map pairIds (obstacles s)))"
    using assms by (simp add: tidy_def sceneOK_def sceneOf_def)
  have sc: "scene s = [0, 1, 2] @ concat (map pairIds (obstacles s))"
    using assms by (simp add: tidy_def sceneOK_def sceneOf_def)
  have rm: "removeAll_scene (obstacles s) (scene s) = [0, 1, 2]"
    unfolding sc by (rule remove_all_pairs [OF d])
  have "list_all (\<lambda>i. i < nextId s) (sceneOf (obstacles s))"
    using assms by (simp add: tidy_def sceneOK_def)
  then have b: "list_all (\<lambda>i. i < nextId s) [0, 1, 2]"
    by (simp add: sceneOf_def)
  have o: "obstacles (resetGame s) = []" "scene (resetGame s) = [0, 1, 2]"
    "nextId (resetGame s) = nextId s" "seedX (resetGame s) = seedX s"
    by (simp_all add: resetGame_def rm seedX_def setY_def)
  show ?thesis
    using assms b by (simp add: tidy_def sceneOK_def o sceneOf_def)
qed

lemma handleInput_tidy:
  assumes "tidy s"
  shows "tidy (handleInput s)"
proof (cases "gameOver s")
  case True
  then show ?thesis using assms by (simp add: handleInput_def resetGame_tidy)
next
  case False
  have "obstacles (handleInput s) = obstacles s" "scene (handleInput s) = scene s"
    "nextId (handleInput s) = nextId s" "seedX (handleInput s) = seedX s"
    using False by (simp_all add: handleInput_def seedX_def)
  then show ?thesis using assms by (simp add: tidy_def sceneOK_def)
qed

lemma initialGame_fields:
  "obstacles initialGame = []"
  "scene initialGame = [0, 1, 2]"
  "nextId initialGame = 3"
  "seedX initialGame = - 3"
  "seedY initialGame = 0"
  "score initialGame = 0"
  "\<not> gameOver initialGame"
  "\<not> gameStarted initialGame"
  by (simp_all add: game_defs three_defs consts_defs)

lemma initialGame_tidy: "tidy initialGame"
  by (simp add: tidy_def sceneOK_def sceneOf_def initialGame_fields viewWidth_def viewHeight_def
      aspectRatio_def)

lemma step_tidy: "tidy s \<Longrightarrow> tidy (step e s)"
  by (cases e) (simp_all add: handleInput_tidy animate_tidy)

lemma run_tidy: "tidy s \<Longrightarrow> tidy (run es s)"
  by (induction es arbitrary: s) (simp_all add: step_tidy)


section \<open>Spawning, quiet frames and the example runs\<close>

lemma scoredGame_fields:
  "gameStarted scoredGame"
  "\<not> gameOver scoredGame"
  "seedY scoredGame = 0.435"
  "seedVelocityY scoredGame = 0.435"
  "obstacles scoredGame = []"
  "score scoredGame = 1"
  "timeSinceLastSpawn scoredGame = 0"
  "scene scoredGame = [0, 1, 2]"
  by (simp_all add: scoredGame_def game_defs three_defs consts_defs Let_def)

lemma scoredGame_history:
  "map passed (despawnedSince [Input, Frame 5 0 (3/4)] initialGame []) = [True]"
  "map (\<lambda>ob. meshX (topObstacle ob)) (despawnedSince [Input, Frame 5 0 (3/4)] initialGame []) = [- 9]"
  by (simp_all add: despawnedBy_def beforeLoop_def advance_def despawns_def
      game_defs three_defs consts_defs Let_def)

lemma randFloat_range:
  assumes "low \<le> high" and "0 \<le> u" and "u \<le> 1"
  shows "low \<le> randFloat low high u" and "randFloat low high u \<le> high"
proof -
  have "0 \<le> u * (high - low)" using assms by simp
  then show "low \<le> randFloat low high u" by (simp add: randFloat_def)
  have "u * (high - low) \<le> 1 * (high - low)"
    using assms by (intro mult_right_mono) simp_all
  then show "randFloat low high u \<le> high" by (simp add: randFloat_def)
qed

text \<open>For random numbers in range the height guard of \<open>createObstacle\<close> does not fire.\<close>

lemma heights_positive:
  assumes "0 \<le> u1" and "u1 \<le> 1" and "0 \<le> u2" and "u2 \<le> 1"
  defines "g \<equiv> randFloat obstacleMinGap obstacleMaxGap u1"
  defines "c \<equiv> randFloat (viewHeight / - 2 + g / 2 + 1.0) (viewHeight / 2 - g / 2 - 1.0) u2"
  shows "1 \<le> viewHeight / 2 - (c + g / 2)" and "1 \<le> viewHeight / 2 + (c - g / 2)"
proof -
  have g: "4 \<le> g" "g \<le> 5.5"
    using randFloat_range [of obstacleMinGap obstacleMaxGap u1] assms(1,2)
    by (simp_all add: g_def obstacleMinGap_def obstacleMaxGap_def)
  have lohi: "viewHeight / - 2 + g / 2 + 1.0 \<le> viewHeight / 2 - g / 2 - 1.0"
    using g by (simp add: viewHeight_def)
  have c: "viewHeight / - 2 + g / 2 + 1.0 \<le> c" "c \<le> viewHeight / 2 - g / 2 - 1.0"
    using randFloat_range [OF lohi assms(3,4)] by (simp_all add: c_def)
  show "1 \<le> viewHeight / 2 - (c + g / 2)" and "1 \<le> viewHeight / 2 + (c - g / 2)"
    using c by (simp_all add: viewHeight_def)
qed

lemma createObstacle_spawns:
  assumes "0 \<le> u1" and "u1 \<le> 1" and "0 \<le> u2" and "u2 \<le> 1"
  shows "\<exists>ob. fresh (nextId s) ob \<and> obstacles (createObstacle u1 u2 s) = obstacles s @ [ob]"
proof -
  have "\<not> obstacles (createObstacle u1 u2 s) = obstacles s"
    using heights_positive [OF assms]
    by (simp add: createObstacle_def Let_def)
  then show ?thesis
    using createObstacle_cases [of u1 u2 s] by blast
qed

lemma obstacleSpawning_obstacles:
  "obstacles (obstacleSpawning dt u1 u2 s) =
     (if timeSinceLastSpawn s + dt \<ge> spawnInterval
      then obstacles (createObstacle u1 u2 s) else obstacles s)"
  by (simp add: obstacleSpawning_def Let_def createObstacle_def)

lemma obstacleSpawning_time:
  "timeSinceLastSpawn (obstacleSpawning dt u1 u2 s) =
     (if timeSinceLastSpawn s + dt \<ge> spawnInterval then 0 else timeSinceLastSpawn s + dt)"
  by (simp add: obstacleSpawning_def Let_def)

lemma beforeLoop_spawns:
  assumes "timeSinceLastSpawn s + dt \<ge> spawnInterval"
    and "0 \<le> u1" and "u1 \<le> 1" and "0 \<le> u2" and "u2 \<le> 1"
  shows "\<exists>ob. fresh (nextId s) ob \<and> obstacles (beforeLoop dt u1 u2 s) = obstacles s @ [ob]"
proof -
  let ?b = "boundaryChecks (updateSeedMatrix (seedPhysics s))"
  have "timeSinceLastSpawn ?b + dt \<ge> spawnInterval"
    using assms(1) by (simp add: boundaryChecks_fields updateSeedMatrix_fields seedPhysics_more)
  then have "obstacles (beforeLoop dt u1 u2 s) = obstacles (createObstacle u1 u2 ?b)"
    by (simp add: beforeLoop_def obstacleSpawning_obstacles)
  then show ?thesis
    using createObstacle_spawns [OF assms(2-5), of ?b]
    by (simp add: boundaryChecks_fields updateSeedMatrix_fields seedPhysics_fields seedPhysics_more)
qed

lemma beforeLoop_quiet:
  assumes "timeSinceLastSpawn s + dt < spawnInterval"
  shows "obstacles (beforeLoop dt u1 u2 s) = obstacles s"
proof -
  let ?b = "boundaryChecks (updateSeedMatrix (seedPhysics s))"
  have "\<not> timeSinceLastSpawn ?b + dt \<ge> spawnInterval"
    using assms by (simp add: boundaryChecks_fields updateSeedMatrix_fields seedPhysics_more)
  then show ?thesis
    by (simp add: beforeLoop_def obstacleSpawning_obstacles boundaryChecks_fields
        updateSeedMatrix_fields seedPhysics_fields)
qed

lemma animate_time:
  assumes "gameStarted s" and "\<not> gameOver s"
  shows "timeSinceLastSpawn (animate dt u1 u2 s) =
     (if timeSinceLastSpawn s + dt \<ge> spawnInterval then 0 else timeSinceLastSpawn s + dt)"
  by (simp add: animate_def gameLogic_running [OF assms] phases_more obstaclePhase_fields
      beforeLoop_def obstacleSpawning_time boundaryChecks_fields updateSeedMatrix_fields
      seedPhysics_more)

lemma animate_seed:
  assumes "gameStarted s" and "\<not> gameOver s"
  shows "seedY (animate dt u1 u2 s) =
       (if seedY s + (seedVelocityY s - gravity) < seedMinY then seedMinY
        else if seedY s + (seedVelocityY s - gravity) > seedMaxY then seedMaxY
        else seedY s + (seedVelocityY s - gravity))"
    and "seedVelocityY (animate dt u1 u2 s) =
       (if seedY s + (seedVelocityY s - gravity) < seedMinY
           \<or> seedY s + (seedVelocityY s - gravity) > seedMaxY then 0
        else seedVelocityY s - gravity)"
  using assms
  by (simp_all add: animate_def gameLogic_def render_fields afterPhysics_seed seedPhysics_fields)

text \<open>A frame without obstacles, without a spawn and inside the bounds.\<close>

lemma quiet_frame:
  assumes "gameStarted s" and "\<not> gameOver s" and "obstacles s = []"
    and "timeSinceLastSpawn s + dt < spawnInterval"
    and "seedMinY \<le> seedY s + (seedVelocityY s - gravity)"
    and "seedY s + (seedVelocityY s - gravity) \<le> seedMaxY"
  shows "gameStarted (animate dt u1 u2 s)"
    and "\<not> gameOver (animate dt u1 u2 s)"
    and "obstacles (animate dt u1 u2 s) = []"
    and "timeSinceLastSpawn (animate dt u1 u2 s) = timeSinceLastSpawn s + dt"
    and "seedY (animate dt u1 u2 s) = seedY s + (seedVelocityY s - gravity)"
    and "score (animate dt u1 u2 s) = score s"
proof -
  note ar = animate_running [OF assms(1,2), of dt u1 u2]
  have o: "obstacles (beforeLoop dt u1 u2 s) = []"
    using beforeLoop_quiet [OF assms(4)] assms(3) by simp
  show "gameStarted (animate dt u1 u2 s)" by (rule ar(6))
  show "obstacles (animate dt u1 u2 s) = []" by (simp add: ar(1) o)
  show "score (animate dt u1 u2 s) = score s" by (simp add: ar(2) o)
  show "timeSinceLastSpawn (animate dt u1 u2 s) = timeSinceLastSpawn s + dt"
    using assms(4) by (simp add: animate_time [OF assms(1,2)])
  show "seedY (animate dt u1 u2 s) = seedY s + (seedVelocityY s - gravity)"
    using assms(5,6) by (simp add: animate_seed [OF assms(1,2)])
  have "\<not> checkCollisions (obstaclePhase dt (beforeLoop dt u1 u2 s))"
    by (simp add: checkCollisions_def obstaclePhase_obstacles o)
  then show "\<not> gameOver (animate dt u1 u2 s)"
    using assms(2,5,6) by (simp add: ar(7) beforeLoop_gameOver)
qed

lemma tap_fields:
  assumes "\<not> gameOver s"
  shows "gameStarted (handleInput s)" "\<not> gameOver (handleInput s)"
    "obstacles (handleInput s) = obstacles s" "score (handleInput s) = score s"
    "timeSinceLastSpawn (handleInput s) = timeSinceLastSpawn s"
    "seedY (handleInput s) = seedY s" "seedVelocityY (handleInput s) = surgeStrength"
  using assms by (simp_all add: handleInput_def seedY_def)

lemma climb:
  assumes "\<not> gameOver s" and "gameStarted s" and "obstacles s = []"
    and "timeSinceLastSpawn s + real n / 64 < spawnInterval"
    and "seedMinY \<le> seedY s"
    and "seedY s + real n * (surgeStrength - gravity) \<le> seedMaxY"
  shows "\<not> gameOver (run (tapsAndFrames n) s) \<and> gameStarted (run (tapsAndFrames n) s)
       \<and> obstacles (run (tapsAndFrames n) s) = []
       \<and> timeSinceLastSpawn (run (tapsAndFrames n) s) = timeSinceLastSpawn s + real n / 64
       \<and> seedY (run (tapsAndFrames n) s) = seedY s + real n * (surgeStrength - gravity)
       \<and> score (run (tapsAndFrames n) s) = score s"
  using assms
proof (induction n arbitrary: s)
  case 0
  then show ?case by (simp add: tapsAndFrames_def)
next
  case (Suc n)
  let ?t = "handleInput s"
  let ?s' = "animate (1/64) 0 (3/4) ?t"
  note tf = tap_fields [OF Suc.prems(1)]
  have pos: "0 \<le> real n * (surgeStrength - gravity)"
    by (simp add: surgeStrength_def gravity_def)
  have q1: "timeSinceLastSpawn ?t + 1/64 < spawnInterval"
    using Suc.prems(4) by (simp add: tf field_simps)
  have q2: "seedMinY \<le> seedY ?t + (seedVelocityY ?t - gravity)"
    using Suc.prems(5) by (simp add: tf surgeStrength_def gravity_def)
  have q3: "seedY ?t + (seedVelocityY ?t - gravity) \<le> seedMaxY"
    using Suc.prems(6) pos by (simp add: tf algebra_simps)
  note qf = quiet_frame [OF tf(1) tf(2) _ q1 q2 q3, of 0 "3/4", unfolded tf, OF Suc.prems(3)]
  have p4: "timeSinceLastSpawn ?s' + real n / 64 < spawnInterval"
    using Suc.prems(4) by (simp add: qf field_simps)
  have p5: "seedMinY \<le> seedY ?s'"
    using Suc.prems(5) by (simp add: qf surgeStrength_def gravity_def)
  have p6: "seedY ?s' + real n * (surgeStrength - gravity) \<le> seedMaxY"
    using Suc.prems(6) by (simp add: qf algebra_simps)
  have r: "run (tapsAndFrames (Suc n)) s = run (tapsAndFrames n) ?s'"
    by (simp add: tapsAndFrames_def)
  show ?case
    unfolding r
    using Suc.IH [OF qf(2) qf(1) qf(3) p4 p5 p6]
    by (simp add: qf algebra_simps)
qed

lemma nearTopGame_fields:
  "gameStarted nearTopGame"
  "\<not> gameOver nearTopGame"
  "seedY nearTopGame = 7.395"
  "seedVelocityY nearTopGame = 0.45"
  "obstacles nearTopGame = []"
  "score nearTopGame = 1"
  "timeSinceLastSpawn nearTopGame = 1/4"
proof -
  have n: "nearTopGame = handleInput (run (tapsAndFrames 16) scoredGame)"
    unfolding nearTopGame_def scoredGame_def run_append by simp
  have c: "\<not> gameOver (run (tapsAndFrames 16) scoredGame)
       \<and> gameStarted (run (tapsAndFrames 16) scoredGame)
       \<and> obstacles (run (tapsAndFrames 16) scoredGame) = []
       \<and> timeSinceLastSpawn (run (tapsAndFrames 16) scoredGame)
           = timeSinceLastSpawn scoredGame + real 16 / 64
       \<and> seedY (run (tapsAndFrames 16) scoredGame)
           = seedY scoredGame + real 16 * (surgeStrength - gravity)
       \<and> score (run (tapsAndFrames 16) scoredGame) = score scoredGame"
    by (rule climb) (simp_all add: scoredGame_fields consts_defs)
  note tf = tap_fields [of "run (tapsAndFrames 16) scoredGame"]
  show "gameStarted nearTopGame" "\<not> gameOver nearTopGame" "seedY nearTopGame = 7.395"
    "seedVelocityY nearTopGame = 0.45" "obstacles nearTopGame = []" "score nearTopGame = 1"
    "timeSinceLastSpawn nearTopGame = 1/4"
    using c by (simp_all add: n tf scoredGame_fields consts_defs)
qed


section \<open>Seed physics (claim C1)\<close>

text \<open>
  Claim C1.  In a frame in which the game is started and not over, \<open>animate\<close> first runs
  the seed physics and then the rest of the frame on its result.  The physics is the
  semi-implicit Euler step: the velocity goes down by the gravity constant 0.015, and the
  position goes up by the new velocity, so a prior state \<open>(y, v)\<close> becomes
  \<open>(y + (v - 0.015), v - 0.015)\<close>.  This is the state before the boundary checks; when
  the new position is inside the bounds it is also the state at the end of the frame.
\<close>

theorem animate_seed_physics:
  assumes "gameStarted s" and "\<not> gameOver s"
  shows "animate dt u1 u2 s = render (afterPhysics dt u1 u2 (seedPhysics s))
       \<and> seedVelocityY (seedPhysics s) = seedVelocityY s - 0.015
       \<and> seedY (seedPhysics s) = seedY s + (seedVelocityY s - 0.015)
       \<and> (seedMinY \<le> seedY s + (seedVelocityY s - 0.015)
            \<and> seedY s + (seedVelocityY s - 0.015) \<le> seedMaxY
          \<longrightarrow> seedVelocityY (animate dt u1 u2 s) = seedVelocityY s - 0.015
            \<and> seedY (animate dt u1 u2 s) = seedY s + (seedVelocityY s - 0.015))"
proof -
  have a: "animate dt u1 u2 s = render (afterPhysics dt u1 u2 (seedPhysics s))"
    using assms by (simp add: animate_def gameLogic_def)
  have v: "seedVelocityY (seedPhysics s) = seedVelocityY s - 0.015"
    and y: "seedY (seedPhysics s) = seedY s + (seedVelocityY s - 0.015)"
    by (simp_all add: seedPhysics_fields gravity_def)
  show ?thesis
    using a v y by (auto simp add: render_fields afterPhysics_seed)
qed


theorem animate_seed_physics_witness:
  "gameStarted startedGame \<and> \<not> gameOver startedGame
   \<and> seedVelocityY (animate (1/64) 0 (3/4) startedGame) = 0.435
   \<and> seedY (animate (1/64) 0 (3/4) startedGame) = 0.435"
  using animate_seed_physics [OF startedGame_fields(1) startedGame_fields(2), of "1/64" 0 "3/4",
      THEN conjunct2]
  by (simp add: startedGame_fields seedMinY_def seedMaxY_def viewHeight_def seedRadius_def)


section \<open>Input (claim C2)\<close>

text \<open>
  Claim C2, as stated: every input event sets the vertical velocity to the surge value
  0.45.  It fails for an input event that arrives while the game is over: that event
  resets the game, and the velocity is 0 afterwards.
\<close>

theorem handleInput_surge_counterexample:
  "gameOver collidedGame \<and> seedVelocityY (handleInput collidedGame) \<noteq> surgeStrength"
  by (simp add: collidedGame_fields handleInput_def resetGame_def surgeStrength_def)

text \<open>
  Claim C2, amended.  An input event that arrives while the game is not over sets the
  vertical velocity to 0.45, whatever it was before, and the game is started afterwards.
  An input event that arrives while the game is over calls \<open>resetGame\<close> and nothing else:
  the velocity is 0 and the game waits for the next input to start.
\<close>

theorem handleInput_velocity:
  "(\<not> gameOver s \<longrightarrow>
      seedVelocityY (handleInput s) = 0.45 \<and> gameStarted (handleInput s)
      \<and> \<not> gameOver (handleInput s))
   \<and> (gameOver s \<longrightarrow>
      handleInput s = resetGame s \<and> seedVelocityY (handleInput s) = 0
      \<and> \<not> gameStarted (handleInput s))"
  by (simp add: handleInput_def resetGame_def surgeStrength_def)

theorem handleInput_velocity_witness:
  "\<not> gameOver startedGame \<and> seedVelocityY (handleInput startedGame) = 0.45
   \<and> gameOver collidedGame \<and> seedVelocityY (handleInput collidedGame) = 0"
  using handleInput_velocity [of startedGame] handleInput_velocity [of collidedGame]
    startedGame_fields(2) collidedGame_fields(1)
  by blast


section \<open>Collision detection (claim C3)\<close>


subsection \<open>Boxes\<close>














subsection \<open>The image of a box\<close>











subsection \<open>The boxes and matrices of the game\<close>



























section \<open>Spawning a pair (claim C5)\<close>





section \<open>The canvas variant: the start button (claim C8)\<close>

lemma blank_step:
  "blankClick e \<Longrightarrow> step_2d e initialCanvas = initialCanvas"
  by (cases e) (simp_all add: startClick_def keydown_def frameCallback_def initialCanvas_def)

lemma blank_run:
  "list_all blankClick es \<Longrightarrow> run_2d es initialCanvas = initialCanvas"
  by (induction es) (simp_all add: blank_step)

text \<open>
  Claim C8.  A click on the start button with a user name that is empty after trimming
  changes nothing but the (empty) name: \<open>running\<close> and the display of the intro screen
  stay as they were, no frame is drawn and no frame is requested.  From the initial
  state, in which \<open>running\<close> is false, any sequence of such clicks, key presses and
  animation frames leaves the whole state as it was, so the game loop never runs.  A click
  with a name that is not empty after trimming hides the intro screen, shows the game
  container, sets \<open>running\<close>, and starts the loop: the first frame is drawn and the next
  one is requested.
\<close>

theorem startClick_gate:
  "(trim value = [] \<longrightarrow> startClick value s = s\<lparr>username := []\<rparr>)
   \<and> (list_all blankClick es \<longrightarrow> run_2d es initialCanvas = initialCanvas)
   \<and> \<not> running initialCanvas \<and> drawn initialCanvas = None \<and> pendingFrames initialCanvas = 0
   \<and> introScreenDisplay initialCanvas = None
   \<and> (trim value \<noteq> [] \<longrightarrow>
        username (startClick value s) = trim value
        \<and> introScreenDisplay (startClick value s) = Some DisplayNone
        \<and> gameContainerDisplay (startClick value s) = Some DisplayBlock
        \<and> running (startClick value s)
        \<and> drawn (startClick value s) \<noteq> None
        \<and> pendingFrames (startClick value s) = pendingFrames s + 1)"
proof -
  have "\<not> running initialCanvas \<and> drawn initialCanvas = None \<and> pendingFrames initialCanvas = 0
     \<and> introScreenDisplay initialCanvas = None"
    by (simp add: initialCanvas_def)
  then show ?thesis
    by (simp add: blank_run startClick_def gameLoop_def Let_def)
qed

lemma trim_examples:
  "trim [32, 9] = []"
  "trim [32, 98, 111, 98, 32] = [98, 111, 98]"
  by (simp_all add: trim_def isWhiteSpace_def)

theorem startClick_gate_witness:
  "trim [32, 9] = [] \<and> startClick [32, 9] initialCanvas = initialCanvas
   \<and> list_all blankClick [StartClick [32, 9], KeyDown ''Space'', AnimationFrame]
   \<and> run_2d [StartClick [32, 9], KeyDown ''Space'', AnimationFrame] initialCanvas = initialCanvas
   \<and> trim [32, 98, 111, 98, 32] \<noteq> []
   \<and> running (startClick [32, 98, 111, 98, 32] initialCanvas)
   \<and> username (startClick [32, 98, 111, 98, 32] initialCanvas) = [98, 111, 98]
   \<and> pendingFrames (startClick [32, 98, 111, 98, 32] initialCanvas) = 1"
proof -
  have u: "initialCanvas\<lparr>username := []\<rparr> = initialCanvas"
    by (simp add: initialCanvas_def)
  have b: "list_all blankClick [StartClick [32, 9], KeyDown ''Space'', AnimationFrame]"
    by (simp add: trim_examples)
  have g: "username (gameLoop c) = username c"
    "pendingFrames (gameLoop c) = (if running c then pendingFrames c + 1 else pendingFrames c)" for c
    by (simp_all add: gameLoop_def Let_def)
  have p: "pendingFrames initialCanvas = 0"
    by (simp add: initialCanvas_def)
  show ?thesis
    using startClick_gate [of "[32, 9]" initialCanvas
        "[StartClick [32, 9], KeyDown ''Space'', AnimationFrame]"]
      startClick_gate [of "[32, 98, 111, 98, 32]" initialCanvas "[]"] b
    by (simp add: trim_examples u g p del: run_2d.simps)
qed


section \<open>The canvas variant against the main game (claim C9)\<close>

lemma score_2d_step: "score_2d (step_2d e s) = score_2d s"
  by (cases e) (simp_all add: startClick_def keydown_def frameCallback_def gameLoop_def Let_def)

lemma score_2d_run: "score_2d (run_2d es s) = score_2d s"
  by (induction es arbitrary: s) (simp_all add: score_2d_step)

lemma namedCanvas_fields:
  "running namedCanvas"
  "y_2d namedCanvas = 801.5"
  "vy_2d namedCanvas = 1.5"
  "score_2d namedCanvas = 0"
  by (simp_all add: namedCanvas_def startClick_def gameLoop_def trim_def isWhiteSpace_def
      initialCanvas_def gravity_2d_def Let_def)

text \<open>
  Claim C9, as stated: the input response and the per-frame update of the canvas variant
  are those of the main game up to constants, with a score that accumulates.  It fails:
  in the running main game every input sets the velocity to the surge value, while in
  the running canvas variant a press of the space bar above the floor leaves the velocity
  as it is; and the score of the canvas variant stays 0.
\<close>

theorem canvas_mechanic_counterexample:
  "\<not> gameOver startedGame \<and> seedVelocityY (handleInput startedGame) = surgeStrength
   \<and> running namedCanvas \<and> vy_2d (keydown ''Space'' namedCanvas) = vy_2d namedCanvas
   \<and> vy_2d (keydown ''Space'' namedCanvas) \<noteq> - 25
   \<and> score_2d (run_2d [AnimationFrame, KeyDown ''Space'', AnimationFrame] namedCanvas) = 0"
  using score_2d_run [of "[AnimationFrame, KeyDown ''Space'', AnimationFrame]" namedCanvas]
  by (simp add: namedCanvas_fields startedGame_fields keydown_def handleInput_def
      del: run_2d.simps)

text \<open>
  Claim C9, amended.  The two programs share the integration scheme of the fall: in the
  main game a running frame takes \<open>(y, v)\<close> to \<open>eulerStep (- gravity) (y, v)\<close>, in the
  canvas variant (whose y axis points down) a running frame takes it to
  \<open>eulerStep gravity_2d (y, v)\<close>, clamped to the floor 960 with velocity 0, and the loop
  keeps running.  The canvas variant gives its fixed impulse \<open>-25\<close> only for the key
  \<^verbatim>\<open>Space\<close> and only on the floor (\<open>y \<ge> 960\<close>); any other key press changes neither
  velocity nor position.  It has no obstacles, and its score is 0 at all times.
\<close>

theorem canvas_mechanic:
  "(seedY (seedPhysics s), seedVelocityY (seedPhysics s))
      = eulerStep (- gravity) (seedY s, seedVelocityY s)
   \<and> (running c \<longrightarrow>
        (y_2d (gameLoop c), vy_2d (gameLoop c))
          = (if fst (eulerStep gravity_2d (y_2d c, vy_2d c)) > 960 then (960, 0)
             else eulerStep gravity_2d (y_2d c, vy_2d c))
        \<and> running (gameLoop c))
   \<and> vy_2d (keydown code c) = (if code = ''Space'' \<and> y_2d c \<ge> 960 then - 25 else vy_2d c)
   \<and> y_2d (keydown code c) = y_2d c
   \<and> score_2d (run_2d es initialCanvas) = 0"
proof -
  have "score_2d (run_2d es initialCanvas) = 0"
    by (simp add: score_2d_run initialCanvas_def)
  then show ?thesis
    by (simp add: seedPhysics_fields eulerStep_def gameLoop_def Let_def keydown_def)
qed

theorem canvas_mechanic_witness:
  "running namedCanvas
   \<and> y_2d (gameLoop namedCanvas) = 804.5 \<and> vy_2d (gameLoop namedCanvas) = 3
   \<and> vy_2d (keydown ''Space'' namedCanvas) = 1.5
   \<and> vy_2d (keydown ''Space'' (namedCanvas\<lparr>y_2d := 960, vy_2d := 0\<rparr>)) = - 25"
  using canvas_mechanic [of startedGame namedCanvas "''Space''" "[]"]
    canvas_mechanic [of startedGame "namedCanvas\<lparr>y_2d := 960, vy_2d := 0\<rparr>" "''Space''" "[]"]
  by (simp add: namedCanvas_fields eulerStep_def gravity_2d_def)


section \<open>The bounds of the seed (claim C7)\<close>

lemma bounds_order: "seedMinY \<le> 0" "0 \<le> seedMaxY"
  by (simp_all add: seedMinY_def seedMaxY_def viewHeight_def seedRadius_def)

lemma animate_inBounds:
  assumes "inBounds s"
  shows "inBounds (animate dt u1 u2 s)"
proof (cases "gameStarted s \<and> \<not> gameOver s")
  case True
  then show ?thesis
    using bounds_order by (simp add: inBounds_def animate_seed)
next
  case False
  then show ?thesis
    using assms by (simp add: inBounds_def animate_idle [OF False])
qed

lemma handleInput_inBounds:
  assumes "inBounds s"
  shows "inBounds (handleInput s)"
proof -
  have "seedY (handleInput s) = (if gameOver s then 0 else seedY s)"
    by (simp add: handleInput_def resetGame_def seedY_def setY_def)
  then show ?thesis
    using assms bounds_order by (simp add: inBounds_def)
qed

lemma run_inBounds: "inBounds s \<Longrightarrow> inBounds (run es s)"
proof (induction es arbitrary: s)
  case Nil
  then show ?case by simp
next
  case (Cons e es)
  have "inBounds (step e s)"
    using Cons.prems by (cases e) (simp_all add: handleInput_inBounds animate_inBounds)
  then show ?case
    using Cons.IH by simp
qed

text \<open>
  Claim C7.  With \<open>seedMinY = -viewHeight/2 + seedRadius\<close> and
  \<open>seedMaxY = viewHeight/2 - seedRadius\<close>, the seed's vertical position lies in
  \<open>[seedMinY, seedMaxY]\<close> after every event of every run of the game, so after every
  \<open>animate\<close> step.  In a frame in which the game is started and not over: when the
  physics carries the position below \<open>seedMinY\<close> (above \<open>seedMaxY\<close>), the frame ends with
  the position at that bound, the velocity 0 and \<open>gameOver\<close> set; when it stays inside,
  position and velocity are those of the physics, and the game is over exactly when
  \<open>checkCollisions\<close> finds a collision.  In any other frame position, velocity and
  \<open>gameOver\<close> stay as they are.  The clamping is the only handling of a failure that is
  ever performed: the other guard of a frame, the height check of \<open>createObstacle\<close>,
  does not fire for random numbers in range, where the pair is always added.
\<close>

theorem seed_within_bounds:
  "seedMinY = - viewHeight / 2 + seedRadius \<and> seedMaxY = viewHeight / 2 - seedRadius
   \<and> seedMinY \<le> seedY (run es initialGame) \<and> seedY (run es initialGame) \<le> seedMaxY
   \<and> (gameStarted s \<and> \<not> gameOver s \<longrightarrow>
        seedMinY \<le> seedY (animate dt u1 u2 s) \<and> seedY (animate dt u1 u2 s) \<le> seedMaxY
        \<and> (seedY s + (seedVelocityY s - gravity) < seedMinY \<longrightarrow>
             seedY (animate dt u1 u2 s) = seedMinY \<and> seedVelocityY (animate dt u1 u2 s) = 0
             \<and> gameOver (animate dt u1 u2 s))
        \<and> (seedY s + (seedVelocityY s - gravity) > seedMaxY \<longrightarrow>
             seedY (animate dt u1 u2 s) = seedMaxY \<and> seedVelocityY (animate dt u1 u2 s) = 0
             \<and> gameOver (animate dt u1 u2 s))
        \<and> (seedMinY \<le> seedY s + (seedVelocityY s - gravity)
             \<and> seedY s + (seedVelocityY s - gravity) \<le> seedMaxY \<longrightarrow>
             seedY (animate dt u1 u2 s) = seedY s + (seedVelocityY s - gravity)
             \<and> seedVelocityY (animate dt u1 u2 s) = seedVelocityY s - gravity
             \<and> (gameOver (animate dt u1 u2 s)
                  \<longleftrightarrow> checkCollisions (obstaclePhase dt (beforeLoop dt u1 u2 s)))))
   \<and> (\<not> (gameStarted s \<and> \<not> gameOver s) \<longrightarrow>
        seedY (animate dt u1 u2 s) = seedY s
        \<and> seedVelocityY (animate dt u1 u2 s) = seedVelocityY s
        \<and> gameOver (animate dt u1 u2 s) = gameOver s)
   \<and> (0 \<le> u1 \<and> u1 \<le> 1 \<and> 0 \<le> u2 \<and> u2 \<le> 1 \<longrightarrow>
        length (obstacles (createObstacle u1 u2 s)) = Suc (length (obstacles s)))"
proof -
  have c: "seedMinY = - viewHeight / 2 + seedRadius \<and> seedMaxY = viewHeight / 2 - seedRadius"
    by (simp add: seedMinY_def seedMaxY_def)
  have "inBounds initialGame"
    using bounds_order by (simp add: inBounds_def initialGame_fields)
  then have "inBounds (run es initialGame)"
    by (rule run_inBounds)
  then have r: "seedMinY \<le> seedY (run es initialGame) \<and> seedY (run es initialGame) \<le> seedMaxY"
    by (simp add: inBounds_def)
  have idle: "\<not> (gameStarted s \<and> \<not> gameOver s) \<longrightarrow>
        seedY (animate dt u1 u2 s) = seedY s
        \<and> seedVelocityY (animate dt u1 u2 s) = seedVelocityY s
        \<and> gameOver (animate dt u1 u2 s) = gameOver s"
    using animate_idle [of s dt u1 u2] by blast
  have running: "gameStarted s \<and> \<not> gameOver s \<longrightarrow>
        seedMinY \<le> seedY (animate dt u1 u2 s) \<and> seedY (animate dt u1 u2 s) \<le> seedMaxY
        \<and> (seedY s + (seedVelocityY s - gravity) < seedMinY \<longrightarrow>
             seedY (animate dt u1 u2 s) = seedMinY \<and> seedVelocityY (animate dt u1 u2 s) = 0
             \<and> gameOver (animate dt u1 u2 s))
        \<and> (seedY s + (seedVelocityY s - gravity) > seedMaxY \<longrightarrow>
             seedY (animate dt u1 u2 s) = seedMaxY \<and> seedVelocityY (animate dt u1 u2 s) = 0
             \<and> gameOver (animate dt u1 u2 s))
        \<and> (seedMinY \<le> seedY s + (seedVelocityY s - gravity)
             \<and> seedY s + (seedVelocityY s - gravity) \<le> seedMaxY \<longrightarrow>
             seedY (animate dt u1 u2 s) = seedY s + (seedVelocityY s - gravity)
             \<and> seedVelocityY (animate dt u1 u2 s) = seedVelocityY s - gravity
             \<and> (gameOver (animate dt u1 u2 s)
                  \<longleftrightarrow> checkCollisions (obstaclePhase dt (beforeLoop dt u1 u2 s))))"
  proof (intro impI)
    assume a: "gameStarted s \<and> \<not> gameOver s"
    then have r: "gameStarted s" "\<not> gameOver s" by simp_all
    show "seedMinY \<le> seedY (animate dt u1 u2 s) \<and> seedY (animate dt u1 u2 s) \<le> seedMaxY
        \<and> (seedY s + (seedVelocityY s - gravity) < seedMinY \<longrightarrow>
             seedY (animate dt u1 u2 s) = seedMinY \<and> seedVelocityY (animate dt u1 u2 s) = 0
             \<and> gameOver (animate dt u1 u2 s))
        \<and> (seedY s + (seedVelocityY s - gravity) > seedMaxY \<longrightarrow>
             seedY (animate dt u1 u2 s) = seedMaxY \<and> seedVelocityY (animate dt u1 u2 s) = 0
             \<and> gameOver (animate dt u1 u2 s))
        \<and> (seedMinY \<le> seedY s + (seedVelocityY s - gravity)
             \<and> seedY s + (seedVelocityY s - gravity) \<le> seedMaxY \<longrightarrow>
             seedY (animate dt u1 u2 s) = seedY s + (seedVelocityY s - gravity)
             \<and> seedVelocityY (animate dt u1 u2 s) = seedVelocityY s - gravity
             \<and> (gameOver (animate dt u1 u2 s)
                  \<longleftrightarrow> checkCollisions (obstaclePhase dt (beforeLoop dt u1 u2 s))))"
      using bounds_order r
      by (simp add: animate_seed [OF r] animate_running(7) [OF r] beforeLoop_gameOver)
  qed
  have guard: "0 \<le> u1 \<and> u1 \<le> 1 \<and> 0 \<le> u2 \<and> u2 \<le> 1 \<longrightarrow>
        length (obstacles (createObstacle u1 u2 s)) = Suc (length (obstacles s))"
    using createObstacle_spawns [of u1 u2 s] by auto
  show ?thesis
    using c r idle running guard by blast
qed

theorem seed_within_bounds_witness:
  "gameStarted nearTopGame \<and> \<not> gameOver nearTopGame
   \<and> seedY nearTopGame + (seedVelocityY nearTopGame - gravity) > seedMaxY
   \<and> seedY (animate (7/2) 0 (3/4) nearTopGame) = 7.5
   \<and> seedVelocityY (animate (7/2) 0 (3/4) nearTopGame) = 0
   \<and> gameOver (animate (7/2) 0 (3/4) nearTopGame)
   \<and> gameOver collidedGame
   \<and> seedY (animate (1/64) 0 (3/4) collidedGame) = seedY collidedGame
   \<and> seedMinY \<le> seedY (run [Input, Frame 3 0 (3/4)] initialGame)
   \<and> length (obstacles (createObstacle 0 (3/4) nearTopGame)) = 1"
  using seed_within_bounds [of "[Input, Frame 3 0 (3/4)]" nearTopGame "7/2" 0 "3/4"]
    seed_within_bounds [of "[]" collidedGame "1/64" 0 "3/4"]
  by (simp add: nearTopGame_fields collidedGame_fields consts_defs del: run.simps)


section \<open>The score after the game is over (claim C4)\<close>

lemma frames_after_game_over:
  "gameOver s \<Longrightarrow> list_all isFrame es \<Longrightarrow> score (run es s) = score s \<and> gameOver (run es s)"
proof (induction es arbitrary: s)
  case Nil
  then show ?case by simp
next
  case (Cons e es)
  from Cons.prems(2) obtain dt u1 u2 where e: "e = Frame dt u1 u2"
    by (cases e) simp_all
  have idle: "\<not> (gameStarted s \<and> \<not> gameOver s)"
    using Cons.prems(1) by simp
  have "gameOver (animate dt u1 u2 s)" "score (animate dt u1 u2 s) = score s"
    using Cons.prems(1) by (simp_all add: animate_idle [OF idle])
  then show ?case
    using Cons.IH [of "animate dt u1 u2 s"] Cons.prems(2) by (simp add: e)
qed

text \<open>
  Claim C4, as stated: once the collision that sets \<open>gameOver\<close> is detected, the score is
  not incremented again, not even later in the same frame.  It fails for a collision
  with a screen boundary, which is detected before the obstacle loop.  In the frame that
  follows \<open>nearTopGame\<close> after a pause of 3.5 seconds the seed rises above \<open>seedMaxY\<close>: the
  boundary check sets \<open>gameOver\<close> while the score is 1; the same frame then spawns a pair
  and moves it from x = 6 to x = -4.5, past the seed at x = -3, and the score is 2 when
  the frame ends.
\<close>

theorem score_stops_counterexample:
  "gameStarted nearTopGame \<and> \<not> gameOver nearTopGame
   \<and> gameOver (boundaryChecks (updateSeedMatrix (seedPhysics nearTopGame)))
   \<and> score (boundaryChecks (updateSeedMatrix (seedPhysics nearTopGame))) = 1
   \<and> score (animate (7/2) 0 (3/4) nearTopGame) = 2"
proof -
  note f = nearTopGame_fields
  have g: "gameOver (boundaryChecks (updateSeedMatrix (seedPhysics nearTopGame)))"
    by (simp add: boundaryChecks_seed updateSeedMatrix_fields seedPhysics_fields f consts_defs)
  have s1: "score (boundaryChecks (updateSeedMatrix (seedPhysics nearTopGame))) = 1"
    by (simp add: boundaryChecks_fields updateSeedMatrix_fields seedPhysics_fields f)
  have "timeSinceLastSpawn nearTopGame + 7/2 \<ge> spawnInterval"
    by (simp add: f spawnInterval_def)
  then obtain ob where ob: "fresh (nextId nearTopGame) ob"
    "obstacles (beforeLoop (7/2) 0 (3/4) nearTopGame) = obstacles nearTopGame @ [ob]"
    using beforeLoop_spawns [of nearTopGame "7/2" 0 "3/4"] by auto
  have "tidy nearTopGame"
    unfolding nearTopGame_def by (rule run_tidy [OF initialGame_tidy])
  then have sx: "seedX nearTopGame = - 3"
    by (simp add: tidy_def consts_defs)
  have "scoresNow (7/2) (seedX nearTopGame) ob"
    using ob(1) by (simp add: scoresNow_def advance_passed fresh_def sx consts_defs)
  then have "score (animate (7/2) 0 (3/4) nearTopGame) = 2"
    by (simp add: animate_running(2) [OF f(1) f(2)] ob(2) f)
  then show ?thesis
    using g s1 f(1) f(2) by simp
qed

text \<open>
  Claim C4, amended.  The score is incremented only in frames that begin with the game
  started and not over.  Once \<open>gameOver\<close> is set, any number of further frames leaves the
  score and \<open>gameOver\<close> as they are, until an input resets the game and sets the score to
  0.  Within a running frame the collision with an obstacle is checked after the
  obstacle loop, and the score at the end of the frame is the score the loop left: the
  score is not incremented after that check.
\<close>

theorem score_frozen_after_game_over:
  "(gameOver s \<and> list_all isFrame es \<longrightarrow> score (run es s) = score s \<and> gameOver (run es s))
   \<and> (gameOver s \<longrightarrow> score (handleInput s) = 0 \<and> \<not> gameOver (handleInput s))
   \<and> (gameStarted s \<and> \<not> gameOver s \<longrightarrow>
        score (animate dt u1 u2 s) = score (obstaclePhase dt (beforeLoop dt u1 u2 s))
        \<and> (gameOver (animate dt u1 u2 s) \<longleftrightarrow>
              gameOver (beforeLoop dt u1 u2 s)
              \<or> checkCollisions (obstaclePhase dt (beforeLoop dt u1 u2 s))))
   \<and> (\<not> gameStarted s \<longrightarrow> score (animate dt u1 u2 s) = score s)"
proof -
  have a: "gameOver s \<and> list_all isFrame es \<longrightarrow> score (run es s) = score s \<and> gameOver (run es s)"
    using frames_after_game_over by blast
  have b: "gameOver s \<longrightarrow> score (handleInput s) = 0 \<and> \<not> gameOver (handleInput s)"
    by (simp add: handleInput_def resetGame_def)
  have c: "gameStarted s \<and> \<not> gameOver s \<longrightarrow>
        score (animate dt u1 u2 s) = score (obstaclePhase dt (beforeLoop dt u1 u2 s))
        \<and> (gameOver (animate dt u1 u2 s) \<longleftrightarrow>
              gameOver (beforeLoop dt u1 u2 s)
              \<or> checkCollisions (obstaclePhase dt (beforeLoop dt u1 u2 s)))"
    using animate_running(2,7) [of s dt u1 u2]
    by (simp add: obstaclePhase_score beforeLoop_fields)
  have d: "\<not> gameStarted s \<longrightarrow> score (animate dt u1 u2 s) = score s"
    using animate_idle(4) [of s dt u1 u2] by simp
  show ?thesis
    using a b c d by blast
qed

theorem score_frozen_after_game_over_witness:
  "gameOver collidedGame \<and> list_all isFrame [Frame (1/64) 0 (3/4), Frame 5 (1/2) (1/2)]
   \<and> score (run [Frame (1/64) 0 (3/4), Frame 5 (1/2) (1/2)] collidedGame) = 0
   \<and> gameOver (run [Frame (1/64) 0 (3/4), Frame 5 (1/2) (1/2)] collidedGame)
   \<and> score (handleInput collidedGame) = 0
   \<and> gameStarted startedGame \<and> \<not> gameOver startedGame
   \<and> score (animate 3 0 (3/4) startedGame) = score (obstaclePhase 3 (beforeLoop 3 0 (3/4) startedGame))
   \<and> \<not> gameStarted initialGame \<and> score (animate 3 0 (3/4) initialGame) = 0"
  using score_frozen_after_game_over
      [of collidedGame "[Frame (1/64) 0 (3/4), Frame 5 (1/2) (1/2)]" 3 0 "3/4"]
    score_frozen_after_game_over [of startedGame "[]" 3 0 "3/4"]
    score_frozen_after_game_over [of initialGame "[]" 3 0 "3/4"]
  by (simp add: collidedGame_fields startedGame_fields initialGame_fields del: run.simps)


section \<open>The score counts the passed pairs (claim C10)\<close>

lemma count_advance:
  "length (filter passed (map (advance dt sx) xs)) =
     length (filter passed xs) + length (filter (scoresNow dt sx) xs)"
  by (induction xs) (auto simp add: scoresNow_def advance_passed)

lemma count_split:
  "length (filter P (filter D ys)) + length (filter P (filter (\<lambda>x. \<not> D x) ys))
     = length (filter P ys)"
  by (induction ys) auto

lemma passed_renderPair: "passed \<circ> renderPair sc = passed"
  by (simp add: fun_eq_iff renderPair_fields)

lemma beforeLoop_passed:
  "length (filter passed (obstacles (beforeLoop dt u1 u2 s))) = length (filter passed (obstacles s))"
  using beforeLoop_cases [of dt u1 u2 s] by (auto simp add: fresh_def)

lemma despawned_passed:
  assumes "seedX s = - viewWidth / 3"
  shows "list_all passed (despawnedBy dt u1 u2 s)"
proof -
  have "passed (advance dt (seedX s) ob)" if "despawns (advance dt (seedX s) ob)" for ob
    using that assms by (simp add: despawns_def advance_x advance_passed consts_defs)
  then show ?thesis
    by (auto simp add: despawnedBy_def list_all_iff beforeLoop_fields)
qed

lemma animate_ledger:
  assumes "seedX s = - viewWidth / 3" and "ledger s h"
  shows "ledger (animate dt u1 u2 s) (h @ despawnedBy dt u1 u2 s)"
proof (cases "gameStarted s \<and> \<not> gameOver s")
  case False
  then have "despawnedBy dt u1 u2 s = []"
    by (auto simp add: despawnedBy_def)
  then show ?thesis
    using assms(2) by (simp add: ledger_def animate_idle [OF False] passed_renderPair)
next
  case True
  then have r: "gameStarted s" "\<not> gameOver s" by simp_all
  let ?obs0 = "obstacles (beforeLoop dt u1 u2 s)"
  let ?moved = "map (advance dt (seedX s)) ?obs0"
  have d: "despawnedBy dt u1 u2 s = filter despawns ?moved"
    using True by (simp add: despawnedBy_def beforeLoop_fields)
  have "length (filter passed (filter despawns ?moved))
        + length (filter passed (filter (\<lambda>ob. \<not> despawns ob) ?moved))
        = length (filter passed (obstacles s)) + length (filter (scoresNow dt (seedX s)) ?obs0)"
    unfolding count_split count_advance beforeLoop_passed ..
  then have "score (animate dt u1 u2 s) =
      length (filter passed (h @ despawnedBy dt u1 u2 s))
      + length (filter passed (obstacles (animate dt u1 u2 s)))"
    using assms(2)
    by (simp add: ledger_def animate_running(1,2) [OF r] passed_renderPair d)
  then show ?thesis
    using assms(2) despawned_passed [OF assms(1), of dt u1 u2] by (simp add: ledger_def)
qed

lemma handleInput_ledger:
  assumes "ledger s h"
  shows "ledger (handleInput s) (if gameOver s then [] else h)"
  using assms by (simp add: ledger_def handleInput_def resetGame_def)

lemma run_ledger:
  "tidy s \<Longrightarrow> ledger s h \<Longrightarrow> ledger (run es s) (despawnedSince es s h)"
proof (induction es arbitrary: s h)
  case Nil
  then show ?case by simp
next
  case (Cons e es)
  have t: "tidy (step e s)" using Cons.prems(1) by (rule step_tidy)
  have sx: "seedX s = - viewWidth / 3" using Cons.prems(1) by (simp add: tidy_def)
  show ?case
  proof (cases e)
    case Input
    have "ledger (handleInput s) (if gameOver s then [] else h)"
      using Cons.prems(2) by (rule handleInput_ledger)
    then show ?thesis
      using Cons.IH [OF t [unfolded Input step.simps]] by (simp add: Input)
  next
    case (Frame dt u1 u2)
    have "ledger (animate dt u1 u2 s) (h @ despawnedBy dt u1 u2 s)"
      using sx Cons.prems(2) by (rule animate_ledger)
    then show ?thesis
      using Cons.IH [OF t [unfolded Frame step.simps]] by (simp add: Frame)
  qed
qed

text \<open>Passed means overtaken, as long as the clock does not run backwards.\<close>

lemma overtaken_render:
  assumes "obstacles t = map (renderPair sc) obs" and "seedX t = sx"
    and "list_all (\<lambda>ob. passed ob \<longleftrightarrow> meshX (topObstacle ob) < sx) obs"
  shows "overtaken t"
  using assms(3) by (simp add: overtaken_def assms(1,2) list_all_iff renderPair_fields)

lemma animate_overtaken:
  assumes "overtaken s" and "0 \<le> dt" and "seedX s = - viewWidth / 3"
  shows "overtaken (animate dt u1 u2 s)"
proof (cases "gameStarted s \<and> \<not> gameOver s")
  case False
  show ?thesis
    using animate_idle(1) [OF False] animate_idle(7) [OF False] assms(1) [unfolded overtaken_def]
    by (rule overtaken_render)
next
  case True
  then have r: "gameStarted s" "\<not> gameOver s" by simp_all
  let ?sx = "seedX s"
  let ?obs0 = "obstacles (beforeLoop dt u1 u2 s)"
  have o0: "list_all (\<lambda>ob. passed ob \<longleftrightarrow> meshX (topObstacle ob) < ?sx) ?obs0"
    using beforeLoop_cases [of dt u1 u2 s] assms(1,3)
    by (auto simp add: overtaken_def fresh_def consts_defs)
  have adv: "passed (advance dt ?sx ob) \<longleftrightarrow> meshX (topObstacle (advance dt ?sx ob)) < ?sx"
    if "passed ob \<longleftrightarrow> meshX (topObstacle ob) < ?sx" for ob
  proof -
    have "0 \<le> obstacleSpeed * dt"
      using assms(2) by (simp add: obstacleSpeed_def)
    then show ?thesis
      using that by (auto simp add: advance_passed advance_x)
  qed
  have "list_all (\<lambda>ob. passed ob \<longleftrightarrow> meshX (topObstacle ob) < ?sx)
          (filter (\<lambda>ob. \<not> despawns ob) (map (advance dt ?sx) ?obs0))"
    using o0 adv by (auto simp add: list_all_iff)
  with animate_running(1) [OF r] animate_running(5) [OF r] show ?thesis
    by (rule overtaken_render)
qed

lemma handleInput_overtaken: "overtaken s \<Longrightarrow> overtaken (handleInput s)"
  by (simp add: overtaken_def handleInput_def resetGame_def seedX_def setY_def)

lemma run_overtaken:
  "tidy s \<Longrightarrow> overtaken s \<Longrightarrow> list_all validEvent es \<Longrightarrow> overtaken (run es s)"
proof (induction es arbitrary: s)
  case Nil
  then show ?case by simp
next
  case (Cons e es)
  have t: "tidy (step e s)" using Cons.prems(1) by (rule step_tidy)
  have sx: "seedX s = - viewWidth / 3" using Cons.prems(1) by (simp add: tidy_def)
  have "overtaken (step e s)"
  proof (cases e)
    case Input
    then show ?thesis using Cons.prems(2) by (simp add: handleInput_overtaken)
  next
    case (Frame dt u1 u2)
    then have "0 \<le> dt" using Cons.prems(3) by simp
    then show ?thesis using Cons.prems(2) sx by (simp add: Frame animate_overtaken)
  qed
  then show ?case
    using Cons.IH [OF t] Cons.prems(3) by simp
qed

text \<open>
  Claim C10.  Every pair is counted at most once, and the score is the number of pairs
  passed since the last reset.  After every run of the game (with a clock that does not
  run backwards): the score equals the number of passed pairs among the pairs despawned
  since the last reset and the pairs in the obstacles list; every despawned pair was
  passed; and a pair in the list is marked as passed exactly when it is to the left of
  the seed.  A running frame adds to the score the number of pairs that are not yet
  passed and whose new x position is below the seed's x position, and marks exactly
  those as passed; a frame that is not running leaves the score alone; an input leaves it
  alone or, when the game is over, resets it to 0.  The loop body never clears the flag,
  and a pair enters the list not passed.  The pairs recorded as despawned by a running
  frame are the pairs whose meshes the obstacle loop of that frame removes from the scene.
\<close>

theorem score_counts_passed_pairs:
  assumes "list_all validEvent es"
  shows "score (run es initialGame)
           = length (filter passed (despawnedSince es initialGame [] @ obstacles (run es initialGame)))
       \<and> list_all passed (despawnedSince es initialGame [])
       \<and> list_all (\<lambda>ob. passed ob \<longleftrightarrow> meshX (topObstacle ob) < seedX (run es initialGame))
            (obstacles (run es initialGame))
       \<and> (gameStarted s \<and> \<not> gameOver s \<longrightarrow>
            score (animate dt u1 u2 s)
              = score s + length (filter (scoresNow dt (seedX s)) (obstacles (beforeLoop dt u1 u2 s))))
       \<and> (\<not> (gameStarted s \<and> \<not> gameOver s) \<longrightarrow> score (animate dt u1 u2 s) = score s)
       \<and> score (handleInput s) = (if gameOver s then 0 else score s)
       \<and> (scoresNow dt sx ob \<longleftrightarrow>
            \<not> passed ob \<and> sx > meshX (topObstacle ob) - obstacleSpeed * dt)
       \<and> (passed ob \<longrightarrow> passed (advance dt sx ob))
       \<and> (obstacles (beforeLoop dt u1 u2 s) = obstacles s
            \<or> (\<exists>new. \<not> passed new \<and> obstacles (beforeLoop dt u1 u2 s) = obstacles s @ [new]))
       \<and> (gameStarted s \<and> \<not> gameOver s \<longrightarrow>
            scene (animate dt u1 u2 s)
              = removeAll_scene (rev (despawnedBy dt u1 u2 s)) (scene (beforeLoop dt u1 u2 s)))"
proof -
  have l0: "ledger initialGame []"
    by (simp add: ledger_def initialGame_fields)
  have "ledger (run es initialGame) (despawnedSince es initialGame [])"
    using initialGame_tidy l0 by (rule run_ledger)
  then have a: "score (run es initialGame)
           = length (filter passed (despawnedSince es initialGame [] @ obstacles (run es initialGame)))"
    and b: "list_all passed (despawnedSince es initialGame [])"
    by (simp_all add: ledger_def)
  have "overtaken initialGame"
    by (simp add: overtaken_def initialGame_fields)
  with initialGame_tidy have "overtaken (run es initialGame)"
    using assms by (rule run_overtaken)
  then have c: "list_all (\<lambda>ob. passed ob \<longleftrightarrow> meshX (topObstacle ob) < seedX (run es initialGame))
            (obstacles (run es initialGame))"
    by (simp add: overtaken_def)
  have d: "gameStarted s \<and> \<not> gameOver s \<longrightarrow>
            score (animate dt u1 u2 s)
              = score s + length (filter (scoresNow dt (seedX s)) (obstacles (beforeLoop dt u1 u2 s)))"
    using animate_running(2) [of s dt u1 u2] by blast
  have e: "\<not> (gameStarted s \<and> \<not> gameOver s) \<longrightarrow> score (animate dt u1 u2 s) = score s"
    using animate_idle(4) [of s dt u1 u2] by blast
  have f: "score (handleInput s) = (if gameOver s then 0 else score s)"
    by (simp add: handleInput_def resetGame_def)
  have g: "scoresNow dt sx ob \<longleftrightarrow>
            \<not> passed ob \<and> sx > meshX (topObstacle ob) - obstacleSpeed * dt"
    by (auto simp add: scoresNow_def advance_passed)
  have h: "passed ob \<longrightarrow> passed (advance dt sx ob)"
    by (simp add: advance_passed)
  have i: "obstacles (beforeLoop dt u1 u2 s) = obstacles s
            \<or> (\<exists>new. \<not> passed new \<and> obstacles (beforeLoop dt u1 u2 s) = obstacles s @ [new])"
    using beforeLoop_cases [of dt u1 u2 s] by (auto simp add: fresh_def)
  have j: "gameStarted s \<and> \<not> gameOver s \<longrightarrow>
            scene (animate dt u1 u2 s)
              = removeAll_scene (rev (despawnedBy dt u1 u2 s)) (scene (beforeLoop dt u1 u2 s))"
    using animate_running(3) [of s dt u1 u2]
    by (simp add: obstaclePhase_scene despawnedBy_def)
  show ?thesis
    using a b c d e f g h i j by blast
qed

theorem score_counts_passed_pairs_witness:
  "list_all validEvent [Input, Frame 5 0 (3/4)]
   \<and> score (run [Input, Frame 5 0 (3/4)] initialGame) = 1
   \<and> map passed (despawnedSince [Input, Frame 5 0 (3/4)] initialGame []) = [True]
   \<and> obstacles (run [Input, Frame 5 0 (3/4)] initialGame) = []
   \<and> gameStarted startedGame \<and> \<not> gameOver startedGame
   \<and> score (animate 5 0 (3/4) startedGame)
       = length (filter (scoresNow 5 (- 3)) (obstacles (beforeLoop 5 0 (3/4) startedGame)))"
proof -
  have v: "list_all validEvent [Input, Frame 5 0 (3/4)]" by simp
  note t = score_counts_passed_pairs [OF v, of startedGame 5 0 "3/4"]
  have o: "obstacles (run [Input, Frame 5 0 (3/4)] initialGame) = []"
    and sc: "score (run [Input, Frame 5 0 (3/4)] initialGame) = 1"
    using scoredGame_fields(5,6) by (simp_all add: scoredGame_def)
  from t have "score (animate 5 0 (3/4) startedGame)
       = score startedGame
         + length (filter (scoresNow 5 (seedX startedGame)) (obstacles (beforeLoop 5 0 (3/4) startedGame)))"
    using startedGame_fields(1,2) by blast
  then show ?thesis
    using v o sc scoredGame_history(1) startedGame_fields by (simp del: run.simps despawnedSince.simps)
qed


section \<open>Spawn, move and despawn (claim C6)\<close>

lemma placement_renderPair: "placement \<circ> renderPair sc = placement"
  by (simp add: fun_eq_iff placement_def renderPair_fields)

lemma placement_advance:
  "placement (advance dt sx ob) = shifted (obstacleSpeed * dt) (placement ob)"
  by (simp add: placement_def shifted_def advance_x pairIds_def advance_ids)

lemma despawns_advance:
  "despawns (advance dt sx ob) \<longleftrightarrow> meshX (topObstacle ob) - obstacleSpeed * dt < obstacleDespawnX"
  by (simp add: despawns_def advance_x)

lemma animate_placement:
  assumes "gameStarted s" and "\<not> gameOver s"
  shows "map placement (obstacles (animate dt u1 u2 s)) =
           map (shifted (obstacleSpeed * dt) \<circ> placement)
             (filter (\<lambda>ob. \<not> meshX (topObstacle ob) - obstacleSpeed * dt < obstacleDespawnX)
                (obstacles (beforeLoop dt u1 u2 s)))"
proof -
  have f: "filter (\<lambda>ob. \<not> despawns ob) (map (advance dt sx) xs) =
           map (advance dt sx)
             (filter (\<lambda>ob. \<not> meshX (topObstacle ob) - obstacleSpeed * dt < obstacleDespawnX) xs)"
    for sx xs
    by (induction xs) (simp_all add: despawns_advance)
  have p: "placement \<circ> advance dt sx = shifted (obstacleSpeed * dt) \<circ> placement" for sx
    by (simp add: fun_eq_iff placement_advance)
  have "map placement (obstacles (animate dt u1 u2 s)) =
        map (placement \<circ> advance dt (seedX s))
          (filter (\<lambda>ob. \<not> meshX (topObstacle ob) - obstacleSpeed * dt < obstacleDespawnX)
             (obstacles (beforeLoop dt u1 u2 s)))"
    unfolding animate_running(1) [OF assms] f map_map comp_assoc [symmetric] placement_renderPair ..
  then show ?thesis
    unfolding p .
qed

text \<open>
  Claim C6, as stated: a pair is removed from the scene and from the obstacles list
  exactly when its x position falls below the despawn threshold.  It fails for the
  reset: in \<open>collidedGame\<close> the game is over with one pair at x = -3, which is not below
  the threshold -6; the next input removes the pair from the obstacles list and its two
  meshes from the scene.
\<close>

theorem despawn_only_below_threshold_counterexample:
  "gameOver collidedGame
   \<and> map placement (obstacles collidedGame) = [([3, 4], - 3, - 3)]
   \<and> \<not> (- 3 < obstacleDespawnX)
   \<and> scene collidedGame = [0, 1, 2, 3, 4]
   \<and> obstacles (handleInput collidedGame) = []
   \<and> scene (handleInput collidedGame) = [0, 1, 2]"
proof -
  have p: "map placement (obstacles collidedGame) = [([3, 4], - 3, - 3)]"
    by (simp add: placement_def pairIds_def collidedGame_def game_defs three_defs consts_defs Let_def)
  have "tidy (handleInput collidedGame)"
    unfolding collidedGame_def
    by (intro handleInput_tidy run_tidy initialGame_tidy)
  moreover have o: "obstacles (handleInput collidedGame) = []"
    by (simp add: handleInput_def resetGame_def collidedGame_fields)
  ultimately have "scene (handleInput collidedGame) = [0, 1, 2]"
    by (simp add: tidy_def sceneOK_def sceneOf_def)
  then show ?thesis
    using p o by (simp add: collidedGame_fields consts_defs)
qed

text \<open>
  Claim C6, amended.  A pair is spawned with both solids at
  \<open>x = viewWidth/2 + obstacleWidth\<close>.  In a frame that begins with the game started and
  not over, the pairs in the list at the end of the frame are the pairs the list held
  when the obstacle loop started (the old ones and the one spawned in this frame) whose
  new x position is not below the despawn threshold \<open>-viewWidth/2 - obstacleWidth\<close>, both
  solids of each moved left by \<open>obstacleSpeed * deltaTime\<close>; the others are gone.  In any
  other frame the list holds the same pairs at the same places.  An input while the game
  is over empties the list whatever the positions are; any other input leaves list and
  scene alone.  After every run of the game the two solids of every pair have the same x
  position, no pair in the list is below the threshold, and the scene holds exactly the
  lights, the seed and the meshes of the pairs in the list, each once: a pair leaves
  the scene when it leaves the list.
\<close>

theorem obstacle_lifecycle:
  "obstacleSpawnX = viewWidth / 2 + obstacleWidth
   \<and> obstacleDespawnX = - viewWidth / 2 - obstacleWidth
   \<and> (0 \<le> u1 \<and> u1 \<le> 1 \<and> 0 \<le> u2 \<and> u2 \<le> 1 \<longrightarrow>
        (\<exists>ob. obstacles (createObstacle u1 u2 s) = obstacles s @ [ob]
           \<and> meshX (topObstacle ob) = obstacleSpawnX
           \<and> meshX (bottomObstacle ob) = obstacleSpawnX))
   \<and> (gameStarted s \<and> \<not> gameOver s \<longrightarrow>
        map placement (obstacles (animate dt u1 u2 s)) =
          map (shifted (obstacleSpeed * dt) \<circ> placement)
            (filter (\<lambda>ob. \<not> meshX (topObstacle ob) - obstacleSpeed * dt < obstacleDespawnX)
               (obstacles (beforeLoop dt u1 u2 s))))
   \<and> (\<not> (gameStarted s \<and> \<not> gameOver s) \<longrightarrow>
        map placement (obstacles (animate dt u1 u2 s)) = map placement (obstacles s))
   \<and> (gameOver s \<longrightarrow> obstacles (handleInput s) = [])
   \<and> (\<not> gameOver s \<longrightarrow>
        obstacles (handleInput s) = obstacles s \<and> scene (handleInput s) = scene s)
   \<and> list_all aligned (obstacles (run es initialGame))
   \<and> list_all (\<lambda>ob. \<not> despawns ob) (obstacles (run es initialGame))
   \<and> scene (run es initialGame) = sceneOf (obstacles (run es initialGame))
   \<and> distinct (scene (run es initialGame))"
proof -
  have a: "obstacleSpawnX = viewWidth / 2 + obstacleWidth
      \<and> obstacleDespawnX = - viewWidth / 2 - obstacleWidth"
    by (simp add: obstacleSpawnX_def obstacleDespawnX_def)
  have b: "0 \<le> u1 \<and> u1 \<le> 1 \<and> 0 \<le> u2 \<and> u2 \<le> 1 \<longrightarrow>
        (\<exists>ob. obstacles (createObstacle u1 u2 s) = obstacles s @ [ob]
           \<and> meshX (topObstacle ob) = obstacleSpawnX
           \<and> meshX (bottomObstacle ob) = obstacleSpawnX)"
    using createObstacle_spawns [of u1 u2 s] by (auto simp add: fresh_def)
  have c: "gameStarted s \<and> \<not> gameOver s \<longrightarrow>
        map placement (obstacles (animate dt u1 u2 s)) =
          map (shifted (obstacleSpeed * dt) \<circ> placement)
            (filter (\<lambda>ob. \<not> meshX (topObstacle ob) - obstacleSpeed * dt < obstacleDespawnX)
               (obstacles (beforeLoop dt u1 u2 s)))"
    using animate_placement [of s dt u1 u2] by blast
  have d: "\<not> (gameStarted s \<and> \<not> gameOver s) \<longrightarrow>
        map placement (obstacles (animate dt u1 u2 s)) = map placement (obstacles s)"
  proof
    assume i: "\<not> (gameStarted s \<and> \<not> gameOver s)"
    show "map placement (obstacles (animate dt u1 u2 s)) = map placement (obstacles s)"
      unfolding animate_idle(1) [OF i] map_map placement_renderPair ..
  qed
  have e: "(gameOver s \<longrightarrow> obstacles (handleInput s) = [])
      \<and> (\<not> gameOver s \<longrightarrow>
        obstacles (handleInput s) = obstacles s \<and> scene (handleInput s) = scene s)"
    by (simp add: handleInput_def resetGame_def)
  have "tidy (run es initialGame)"
    by (rule run_tidy [OF initialGame_tidy])
  then have f: "list_all aligned (obstacles (run es initialGame))
      \<and> list_all (\<lambda>ob. \<not> despawns ob) (obstacles (run es initialGame))
      \<and> scene (run es initialGame) = sceneOf (obstacles (run es initialGame))
      \<and> distinct (scene (run es initialGame))"
    by (simp add: tidy_def sceneOK_def)
  show ?thesis
    using a b c d e f by blast
qed

theorem obstacle_lifecycle_witness:
  "(\<exists>ob. obstacles (createObstacle 0 (3/4) startedGame) = [ob]
       \<and> meshX (topObstacle ob) = 6 \<and> meshX (bottomObstacle ob) = 6)
   \<and> gameStarted startedGame \<and> \<not> gameOver startedGame
   \<and> map placement (obstacles (animate 3 0 (3/4) startedGame))
       = map (shifted 9 \<circ> placement) (obstacles (beforeLoop 3 0 (3/4) startedGame))
   \<and> map placement (obstacles (animate 5 0 (3/4) startedGame)) = []
   \<and> gameOver collidedGame
   \<and> map placement (obstacles (animate 3 0 (3/4) collidedGame)) = map placement (obstacles collidedGame)
   \<and> obstacles (handleInput collidedGame) = []
   \<and> list_all aligned (obstacles (run [Input, Frame 3 0 (3/4)] initialGame))"
proof -
  note t1 = obstacle_lifecycle [of 0 "3/4" startedGame 3 "[Input, Frame 3 0 (3/4)]"]
  note t2 = obstacle_lifecycle [of 0 "3/4" startedGame 5 "[]"]
  note t3 = obstacle_lifecycle [of 0 "3/4" collidedGame 3 "[]"]
  have b: "map (\<lambda>ob. meshX (topObstacle ob)) (obstacles (beforeLoop dt 0 (3/4) startedGame)) = [6]"
    if "dt \<ge> 0" for dt
    using that
    by (simp add: beforeLoop_def startedGame_def game_defs three_defs consts_defs Let_def)
  have f3: "filter (\<lambda>ob. \<not> meshX (topObstacle ob) - obstacleSpeed * 3 < obstacleDespawnX)
               (obstacles (beforeLoop 3 0 (3/4) startedGame))
            = obstacles (beforeLoop 3 0 (3/4) startedGame)"
    using b [of 3] by (auto simp add: filter_id_conv consts_defs)
  have f5: "filter (\<lambda>ob. \<not> meshX (topObstacle ob) - obstacleSpeed * 5 < obstacleDespawnX)
               (obstacles (beforeLoop 5 0 (3/4) startedGame)) = []"
    using b [of 5] by (auto simp add: filter_empty_conv consts_defs)
  have c1: "\<exists>ob. obstacles (createObstacle 0 (3/4) startedGame) = [ob]
       \<and> meshX (topObstacle ob) = 6 \<and> meshX (bottomObstacle ob) = 6"
    using t1 by (simp add: startedGame_fields consts_defs)
  have c2: "map placement (obstacles (animate 3 0 (3/4) startedGame))
       = map (shifted 9 \<circ> placement) (obstacles (beforeLoop 3 0 (3/4) startedGame))"
    using t1 startedGame_fields(1,2) f3 by (simp add: obstacleSpeed_def)
  have c3: "map placement (obstacles (animate 5 0 (3/4) startedGame)) = []"
    using t2 startedGame_fields(1,2) f5 by simp
  have c4: "map placement (obstacles (animate 3 0 (3/4) collidedGame)) = map placement (obstacles collidedGame)"
    using t3 collidedGame_fields(1) by blast
  have c5: "obstacles (handleInput collidedGame) = []"
    using t3 collidedGame_fields(1) by blast
  have c6: "list_all aligned (obstacles (run [Input, Frame 3 0 (3/4)] initialGame))"
    using t1 by blast
  show ?thesis
    using c1 c2 c3 c4 c5 c6 startedGame_fields(1,2) collidedGame_fields(1) by blast
qed

end
